theory Spec2Isabelle
  imports Complex_Main
begin

section \<open>The OTP store: table \<open>public.otp_storage\<close> (sql/whatsapp_otps.sql)\<close>

text \<open>
  A \<open>TIMESTAMPTZ\<close> is a count of microseconds, a \<open>UUID\<close> an opaque number. A row of
  \<open>otp_storage\<close> has the columns of the \<open>CREATE TABLE\<close>. The only \<open>INSERT\<close> of the
  source (in \<open>create_otp_entry\<close>) leaves \<open>created_at\<close>, \<open>attempts\<close> and \<open>verified\<close> to
  their defaults \<open>NOW()\<close>, \<open>0\<close> and \<open>FALSE\<close>, and direct access is blocked by the row
  level security policy, so these columns are never \<open>NULL\<close>; \<open>request_ip\<close> may be.
\<close>

type_synonym uuid = nat
type_synonym timestamptz = int

record otp_row =
  otp_id :: uuid
  phone_number :: string
  otp_code :: string
  created_at :: timestamptz
  expires_at :: timestamptz
  attempts :: int
  verified :: bool
  request_ip :: "string option"

type_synonym otp_storage = "otp_row list"

text \<open>Errors PostgreSQL raises; a raise aborts the function and its writes.\<close>

datatype pg_error = unique_violation | integer_out_of_range

text \<open>
  The constraints of the table: \<open>id\<close> is the primary key and
  \<open>unique_active_otp\<close> is \<open>UNIQUE (phone_number, verified)\<close>.
\<close>

definition primary_key_ok :: "otp_storage \<Rightarrow> bool" where
  "primary_key_ok tbl = distinct (map otp_id tbl)"

definition unique_active_otp :: "otp_storage \<Rightarrow> bool" where
  "unique_active_otp tbl = distinct (map (\<lambda>r. (phone_number r, verified r)) tbl)"

definition table_ok :: "otp_storage \<Rightarrow> bool" where
  "table_ok tbl = (primary_key_ok tbl \<and> unique_active_otp tbl)"

text \<open>\<open>INSERT INTO otp_storage\<close>: both constraints are checked, a violation raises.\<close>

definition insert_row :: "otp_storage \<Rightarrow> otp_row \<Rightarrow> pg_error + otp_storage" where
  "insert_row tbl r =
     (if otp_id r \<in> set (map otp_id tbl) then Inl unique_violation
      else if (phone_number r, verified r) \<in> set (map (\<lambda>r'. (phone_number r', verified r')) tbl)
        then Inl unique_violation
      else Inr (tbl @ [r]))"

text \<open>\<open>DELETE FROM otp_storage WHERE phone_number = p\<close> and \<open>... WHERE id = i\<close>.\<close>

definition delete_phone :: "otp_storage \<Rightarrow> string \<Rightarrow> otp_storage" where
  "delete_phone tbl p = filter (\<lambda>r. phone_number r \<noteq> p) tbl"

definition delete_id :: "otp_storage \<Rightarrow> uuid \<Rightarrow> otp_storage" where
  "delete_id tbl i = filter (\<lambda>r. otp_id r \<noteq> i) tbl"

text \<open>\<open>UPDATE otp_storage SET attempts = attempts + 1 WHERE id = i\<close>.\<close>

definition increment_attempts :: "otp_storage \<Rightarrow> uuid \<Rightarrow> otp_storage" where
  "increment_attempts tbl i =
     map (\<lambda>r. if otp_id r = i then r\<lparr>attempts := attempts r + 1\<rparr> else r) tbl"

text \<open>
  \<open>ORDER BY created_at DESC LIMIT 1\<close>: a row with the greatest \<open>created_at\<close>, none for
  no rows. Among equal timestamps the earliest stored row is taken.
\<close>

fun latest :: "otp_row list \<Rightarrow> otp_row option" where
  "latest [] = None"
| "latest (r # rs) =
     (case latest rs of
        None \<Rightarrow> Some r
      | Some r' \<Rightarrow> if created_at r < created_at r' then Some r' else Some r)"

text \<open>
  \<open>create_otp_entry\<close>: deletes every row of the phone, then inserts the new row and
  returns its id. \<open>now\<close> is \<open>NOW()\<close> and \<open>new_otp_id\<close> the value \<open>gen_random_uuid()\<close>
  draws; \<open>(p_expiry_minutes || ' minutes')::INTERVAL\<close> is that many times 60000000
  microseconds.
\<close>

definition create_otp_entry ::
  "otp_storage \<Rightarrow> timestamptz \<Rightarrow> uuid \<Rightarrow> string \<Rightarrow> string \<Rightarrow> int \<Rightarrow> string option
     \<Rightarrow> pg_error + (uuid \<times> otp_storage)" where
  "create_otp_entry tbl now new_otp_id p_phone_number p_otp_code p_expiry_minutes p_request_ip =
     (let tbl1 = delete_phone tbl p_phone_number;
          new_row = \<lparr>otp_id = new_otp_id, phone_number = p_phone_number,
                     otp_code = p_otp_code, created_at = now,
                     expires_at = now + p_expiry_minutes * 60000000,
                     attempts = 0, verified = False, request_ip = p_request_ip\<rparr>
      in case insert_row tbl1 new_row of
           Inl e \<Rightarrow> Inl e
         | Inr tbl2 \<Rightarrow> Inr (new_otp_id, tbl2))"

text \<open>The row \<open>verify_otp\<close> returns: \<open>TABLE(success, message, remaining_attempts)\<close>.\<close>

record verify_result =
  success :: bool
  message :: string
  remaining_attempts :: int

text \<open>\<open>verify_otp\<close>, returning its row and the table it leaves.\<close>

definition verify_otp ::
  "otp_storage \<Rightarrow> timestamptz \<Rightarrow> string \<Rightarrow> string \<Rightarrow> verify_result \<times> otp_storage" where
  "verify_otp tbl now p_phone_number p_otp_code =
     (case latest (filter (\<lambda>r. phone_number r = p_phone_number \<and> verified r = False) tbl) of
        None \<Rightarrow>
          (\<lparr>success = False, message = ''No OTP found for this phone number'',
            remaining_attempts = 0\<rparr>, tbl)
      | Some v_otp \<Rightarrow>
          if expires_at v_otp < now then
            (\<lparr>success = False, message = ''OTP has expired'', remaining_attempts = 0\<rparr>,
             delete_id tbl (otp_id v_otp))
          else if attempts v_otp \<ge> 5 then
            (\<lparr>success = False, message = ''Maximum verification attempts exceeded'',
              remaining_attempts = 0\<rparr>,
             delete_id tbl (otp_id v_otp))
          else
            (let tbl1 = increment_attempts tbl (otp_id v_otp);
                 v_remaining = 5 - (attempts v_otp + 1)
             in if otp_code v_otp = p_otp_code then
                  (\<lparr>success = True, message = ''OTP verified successfully'',
                    remaining_attempts = v_remaining\<rparr>,
                   delete_id tbl1 (otp_id v_otp))
                else
                  (\<lparr>success = False, message = ''Invalid OTP code'',
                    remaining_attempts = v_remaining\<rparr>, tbl1)))"

section \<open>The rate limiter: \<open>check_otp_rate_limit\<close> (sql/vendor_query.sql)\<close>

text \<open>An \<open>INTEGER\<close> is a 32-bit signed number; a result outside the range raises.\<close>

definition int4 :: "int \<Rightarrow> bool" where
  "int4 i = (- 2147483648 \<le> i \<and> i \<le> 2147483647)"

text \<open>
  \<open>EXTRACT(EPOCH FROM d)::INTEGER\<close> for an interval \<open>d\<close> of microseconds: the seconds
  as a \<open>numeric\<close>, cast to \<open>INTEGER\<close> by rounding to the nearest number, a half away
  from zero.
\<close>

definition epoch_seconds :: "int \<Rightarrow> int" where
  "epoch_seconds d =
     (if 0 \<le> d then (d + 500000) div 1000000 else - ((- d + 500000) div 1000000))"

definition check_otp_rate_limit ::
  "otp_storage \<Rightarrow> timestamptz \<Rightarrow> string \<Rightarrow> int \<Rightarrow> pg_error + (bool \<times> int)" where
  "check_otp_rate_limit tbl now p_phone_number p_window_seconds =
     (case latest (filter (\<lambda>r. phone_number r = p_phone_number) tbl) of
        None \<Rightarrow> Inr (True, 0)
      | Some r \<Rightarrow>
          (let v_last_created = created_at r;
               elapsed = epoch_seconds (now - v_last_created)
           in if \<not> int4 elapsed then Inl integer_out_of_range
              else if \<not> int4 (p_window_seconds - elapsed) then Inl integer_out_of_range
              else (let v_wait = p_window_seconds - elapsed
                    in if v_wait > 0 then Inr (False, v_wait) else Inr (True, 0))))"

section \<open>JavaScript values the handlers compute\<close>

text \<open>\<open>Number.prototype.toString\<close> on an integer: its decimal digits, a minus sign first.\<close>

definition digit_char :: "nat \<Rightarrow> char" where
  "digit_char d = ''0123456789'' ! d"

fun digits :: "nat \<Rightarrow> string" where
  "digits n = (if n < 10 then [digit_char n] else digits (n div 10) @ [digit_char (n mod 10)])"

definition number_toString :: "int \<Rightarrow> string" where
  "number_toString i = (if i < 0 then CHR ''-'' # digits (nat (- i)) else digits (nat i))"

text \<open>
  JavaScript numbers are IEEE 754 doubles: the result of \<open>*\<close> and of \<open>+\<close> is the exact
  result rounded to the nearest double, a tie to the one with an even significand. A
  double is a multiple of its unit in the last place, \<open>2 ^ (e - 52)\<close> for a number from
  \<open>2 ^ e\<close> up to \<open>2 ^ (e + 1)\<close> and \<open>2 ^ - 1074\<close> below \<open>2 ^ - 1022\<close>. The numbers
  here stay below \<open>2 ^ 20\<close>, far from the overflow to \<open>Infinity\<close>, which is left out.
\<close>

fun ilog2 :: "nat \<Rightarrow> nat" where
  "ilog2 n = (if n < 2 then 0 else Suc (ilog2 (n div 2)))"

declare ilog2.simps [simp del]

definition pow2 :: "int \<Rightarrow> real" where
  "pow2 e = (if 0 \<le> e then 2 ^ nat e else 1 / 2 ^ nat (- e))"

text \<open>For \<open>0 < x\<close>, the \<open>e\<close> with \<open>2 ^ e \<le> x < 2 ^ (e + 1)\<close>.\<close>

definition exponent :: "real \<Rightarrow> int" where
  "exponent x =
     (if 1 \<le> x then int (ilog2 (nat \<lfloor>x\<rfloor>))
      else - int (ilog2 (nat (\<lceil>1 / x\<rceil> - 1))) - 1)"

definition ulp :: "real \<Rightarrow> real" where
  "ulp x = pow2 (max (exponent x) (- 1022) - 52)"

definition round_even :: "real \<Rightarrow> int" where
  "round_even q =
     (let f = \<lfloor>q\<rfloor>; d = q - real_of_int f
      in if d < 1 / 2 then f else if 1 / 2 < d then f + 1 else if even f then f else f + 1)"

definition double_round :: "real \<Rightarrow> real" where
  "double_round x =
     (if x = 0 then 0
      else if 0 < x then ulp x * real_of_int (round_even (x / ulp x))
      else - (ulp (- x) * real_of_int (round_even (- x / ulp (- x)))))"

definition is_double :: "real \<Rightarrow> bool" where
  "is_double x = (double_round x = x)"

text \<open>
  \<open>Math.floor(100000 + Math.random() * 900000).toString()\<close> (send-otp.ts, step 2).
  \<open>rnd\<close> is the double \<open>Math.random()\<close> returns, at least 0 and less than 1; the
  product and the sum are rounded as doubles, \<open>Math.floor\<close> is exact. \<open>otp_number\<close> is
  the number before \<open>toString\<close>.
\<close>

definition otp_number :: "real \<Rightarrow> int" where
  "otp_number rnd = \<lfloor>double_round (100000 + double_round (rnd * 900000))\<rfloor>"

definition generate_otp :: "real \<Rightarrow> string" where
  "generate_otp rnd = number_toString \<lfloor>double_round (100000 + double_round (rnd * 900000))\<rfloor>"

text \<open>The tests \<open>/^\+1\d{10}$/\<close> and \<open>/^\+91\d{10}$/\<close> and \<open>startsWith('+')\<close>.\<close>

definition is_digit :: "char \<Rightarrow> bool" where
  "is_digit c = (c \<in> set ''0123456789'')"

definition startsWith :: "string \<Rightarrow> string \<Rightarrow> bool" where
  "startsWith s pre = (take (length pre) s = pre)"

definition isValidFormat :: "string \<Rightarrow> bool" where
  "isValidFormat phoneNumber =
     ((startsWith phoneNumber ''+1'' \<and> length phoneNumber = 12
         \<and> list_all is_digit (drop 2 phoneNumber))
      \<or> (startsWith phoneNumber ''+91'' \<and> length phoneNumber = 13
         \<and> list_all is_digit (drop 3 phoneNumber)))"

section \<open>The notifier: \<open>sendWhatsAppOTP\<close> (evolutionApiService)\<close>

text \<open>
  What the outside world does to one call: whether the three environment variables are
  set, and how the HTTP exchange ends. \<open>Thrown\<close> is any exception inside the \<open>try\<close>
  block, with its message when it is an \<open>Error\<close>; \<open>NotOk\<close> a response whose \<open>ok\<close> is
  false, with status and status text.
\<close>

datatype http_outcome = Thrown "string option" | NotOk nat string | Delivered

record evolution_env =
  api_configured :: bool
  http :: http_outcome

text \<open>The result \<open>{ success, error? }\<close>; every exception is caught inside.\<close>

definition sendWhatsAppOTP :: "evolution_env \<Rightarrow> string \<Rightarrow> string \<Rightarrow> int \<Rightarrow> bool \<times> string option" where
  "sendWhatsAppOTP ev phoneNumber otpCode expiryMinutes =
     (if \<not> api_configured ev then (False, Some ''Evolution API not configured'')
      else case http ev of
             Thrown m \<Rightarrow> (False, Some (case m of Some msg \<Rightarrow> msg | None \<Rightarrow> ''Unknown error''))
           | NotOk st txt \<Rightarrow>
               (False, Some (''Evolution API returned '' @ number_toString (int st) @ '': '' @ txt))
           | Delivered \<Rightarrow> (True, None))"

section \<open>The issuing handler (send-otp.ts)\<close>

text \<open>
  The request: its method, the field \<open>phoneNumber\<close> of its JSON body (\<open>None\<close> when it
  is missing or is not a string), the header \<open>x-forwarded-for\<close> and the socket's remote
  address.
\<close>

record send_request =
  send_method :: string
  send_phoneNumber :: "string option"
  x_forwarded_for :: "string option"
  remoteAddress :: "string option"

text \<open>
  What one run of the handler meets: the table, \<open>NOW()\<close> in each of the two database
  calls, whether a call fails on its way to the database, the random number, the id
  the database draws and the notifier's world. A database call that fails, on its way
  or by a raise, writes nothing. No step of the model throws, so the handler's last
  \<open>catch\<close> (500, "An unexpected error occurred") is not reached.
\<close>

record send_env =
  send_db :: otp_storage
  now_rate_limit :: timestamptz
  now_create :: timestamptz
  rate_limit_rpc_fails :: bool
  create_rpc_fails :: bool
  math_random :: real
  gen_random_uuid :: uuid
  evolution :: evolution_env

datatype send_body =
    SendError string
  | SendRateLimited string int
  | SendSuccess bool string int

type_synonym send_response = "nat \<times> send_body"

definition requestIp :: "send_request \<Rightarrow> string" where
  "requestIp req =
     (let fallback = (case remoteAddress req of
                        None \<Rightarrow> ''unknown''
                      | Some a \<Rightarrow> if a = [] then ''unknown'' else a)
      in case x_forwarded_for req of
           None \<Rightarrow> fallback
         | Some h \<Rightarrow> (let first = takeWhile (\<lambda>c. c \<noteq> CHR '','') h
                      in if first = [] then fallback else first))"

definition send_otp_handler :: "send_env \<Rightarrow> send_request \<Rightarrow> send_response \<times> otp_storage" where
  "send_otp_handler env req =
     (if send_method req \<noteq> ''POST'' then ((405, SendError ''Method not allowed''), send_db env)
      else case send_phoneNumber req of
        None \<Rightarrow> ((400, SendError ''Phone number is required''), send_db env)
      | Some phoneNumber \<Rightarrow>
          if phoneNumber = [] then ((400, SendError ''Phone number is required''), send_db env)
          else if \<not> startsWith phoneNumber ''+'' then
            ((400, SendError ''Phone number must include country code (e.g., +91 or +1)''),
             send_db env)
          else if \<not> isValidFormat phoneNumber then
            ((400, SendError
                ''Invalid phone number format. Must be +1 or +91 followed by 10 digits.''),
             send_db env)
          else if rate_limit_rpc_fails env then
            ((500, SendError ''Failed to check rate limit''), send_db env)
          else
            (case check_otp_rate_limit (send_db env) (now_rate_limit env) phoneNumber 15 of
               Inl e \<Rightarrow> ((500, SendError ''Failed to check rate limit''), send_db env)
             | Inr (allowed, wait_seconds) \<Rightarrow>
                 if \<not> allowed then
                   ((429, SendRateLimited
                       (''Too many OTP requests. Please wait '' @ number_toString wait_seconds
                          @ '' seconds before trying again.'') wait_seconds),
                    send_db env)
                 else
                   (let otpCode = generate_otp (math_random env)
                    in if create_rpc_fails env then
                         ((500, SendError ''Failed to create OTP''), send_db env)
                       else
                         (case create_otp_entry (send_db env) (now_create env)
                                 (gen_random_uuid env) phoneNumber otpCode 5
                                 (Some (requestIp req)) of
                            Inl e \<Rightarrow> ((500, SendError ''Failed to create OTP''), send_db env)
                          | Inr (otpId, db') \<Rightarrow>
                              (let whatsappResult =
                                     sendWhatsAppOTP (evolution env) phoneNumber otpCode 5
                               in ((200, SendSuccess True ''OTP sent successfully'' 300),
                                   db'))))))"

section \<open>The identity collaborator\<close>

text \<open>
  Modelled from the spec: the account directory and the sign-in of the identity
  provider (Supabase Auth, reached through \<open>supabase.auth\<close>), which is not part of the
  repository. The spec's interface is \<open>Identity.findByPhone\<close>, \<open>Identity.createAccount\<close>
  and \<open>Identity.setCredentialAndAuthenticate\<close>: an account has an identifier, a phone and
  at most one password; creating an account for a phone that has one is refused;
  signing in with phone and password succeeds exactly when the account of that phone
  has that password, and yields a session bound to the account.
\<close>

record auth_user =
  user_id :: uuid
  phone :: string
  password :: "string option"
  phone_confirm :: bool

type_synonym directory = "auth_user list"

datatype session = Session uuid

datatype auth_error = user_exists | invalid_credentials | unavailable

definition createUser ::
  "directory \<Rightarrow> uuid \<Rightarrow> string \<Rightarrow> string option \<Rightarrow> auth_error + (auth_user \<times> directory)" where
  "createUser dir new_id ph pw =
     (if ph \<in> set (map phone dir) \<or> new_id \<in> set (map user_id dir) then Inl user_exists
      else (let u = \<lparr>user_id = new_id, phone = ph, password = pw, phone_confirm = True\<rparr>
            in Inr (u, dir @ [u])))"

definition updateUserById :: "directory \<Rightarrow> uuid \<Rightarrow> string \<Rightarrow> directory" where
  "updateUserById dir i pw =
     map (\<lambda>u. if user_id u = i then u\<lparr>password := Some pw\<rparr> else u) dir"

definition signInWithPassword :: "directory \<Rightarrow> string \<Rightarrow> string \<Rightarrow> auth_error + session" where
  "signInWithPassword dir ph pw =
     (case find (\<lambda>u. phone u = ph) dir of
        None \<Rightarrow> Inl invalid_credentials
      | Some u \<Rightarrow> if password u = Some pw then Inr (Session (user_id u))
                  else Inl invalid_credentials)"

section \<open>The verifying handler (verify-otp.ts)\<close>

text \<open>
  The request: its method and the fields \<open>phoneNumber\<close> and \<open>otp\<close> of its JSON body,
  strings when present.
\<close>

record verify_request =
  verify_method :: string
  verify_phoneNumber :: "string option"
  verify_otp_field :: "string option"

text \<open>
  What one run meets: the table and \<open>NOW()\<close>, the directory, which calls fail on their
  way out, the id a new account gets, and the two pieces
  \<open>Math.random().toString(36).slice(-8)\<close> of the temporary password.
\<close>

record verify_env =
  verify_db :: otp_storage
  verify_now :: timestamptz
  verify_rpc_fails :: bool
  users :: directory
  listUsers_fails :: bool
  createUser_fails :: bool
  updateUser_fails :: bool
  signIn_fails :: bool
  new_user_id :: uuid
  random_part1 :: string
  random_part2 :: string

datatype verify_body =
    VerifyError string
  | VerifyRejected string int
  | VerifySuccess bool string session

type_synonym verify_response = "nat \<times> verify_body"

definition tempPassword :: "verify_env \<Rightarrow> string" where
  "tempPassword env = random_part1 env @ random_part2 env @ ''Aa1!''"

text \<open>
  Steps 2 and 3 of the handler, run once the code is verified: find or create the
  account, set the temporary password, sign in with it. Returns the response and the
  directory it leaves. \<open>listUsers\<close> is taken to return the whole directory. The error
  of \<open>updateUserById\<close> is not looked at: when the call fails the directory stays as it
  is and the handler goes on. An error of the second \<open>createUser\<close> is thrown and caught
  at the end of the handler; the id the provider would draw for it does not matter, the
  phone has an account by then.
\<close>

definition mintSession :: "verify_env \<Rightarrow> string \<Rightarrow> verify_response \<times> directory" where
  "mintSession env formattedPhone =
     (if listUsers_fails env then ((500, VerifyError ''Auth error''), users env)
      else
        (let existingUser = find (\<lambda>u. phone u = formattedPhone) (users env);
             created =
               (case existingUser of
                  Some u \<Rightarrow> Inr (user_id u, users env)
                | None \<Rightarrow>
                    if createUser_fails env then Inl unavailable
                    else (case createUser (users env) (new_user_id env) formattedPhone None of
                            Inl e \<Rightarrow> Inl e
                          | Inr (newUser, dir1) \<Rightarrow> Inr (user_id newUser, dir1)))
         in case created of
              Inl e \<Rightarrow> ((500, VerifyError ''Failed to create user account''), users env)
            | Inr (userId, dir1) \<Rightarrow>
                (let with_password =
                       (case existingUser of
                          Some u \<Rightarrow>
                            if updateUser_fails env then Inr dir1
                            else Inr (updateUserById dir1 (user_id u) (tempPassword env))
                        | None \<Rightarrow>
                            if createUser_fails env then Inl unavailable
                            else (case createUser dir1 (new_user_id env) formattedPhone
                                         (Some (tempPassword env)) of
                                    Inl e \<Rightarrow> Inl e
                                  | Inr (u2, dir2) \<Rightarrow> Inr dir2))
                 in case with_password of
                      Inl e \<Rightarrow> ((500, VerifyError ''Internal server error''), dir1)
                    | Inr dir2 \<Rightarrow>
                        if signIn_fails env then
                          ((500, VerifyError ''Failed to generate session''), dir2)
                        else
                          (case signInWithPassword dir2 formattedPhone (tempPassword env) of
                             Inl e \<Rightarrow>
                               ((500, VerifyError ''Failed to generate session''), dir2)
                           | Inr s \<Rightarrow>
                               ((200, VerifySuccess True ''OTP verified successfully'' s),
                                dir2)))))"

definition verify_otp_handler ::
  "verify_env \<Rightarrow> verify_request \<Rightarrow> verify_response \<times> otp_storage \<times> directory" where
  "verify_otp_handler env req =
     (if verify_method req \<noteq> ''POST'' then
        ((405, VerifyError ''Method not allowed''), verify_db env, users env)
      else case (verify_phoneNumber req, verify_otp_field req) of
        (Some phoneNumber, Some otp) \<Rightarrow>
          if phoneNumber = [] \<or> otp = [] then
            ((400, VerifyError ''Phone number and OTP are required''), verify_db env, users env)
          else if verify_rpc_fails env then
            ((500, VerifyError ''Database error during verification''), verify_db env, users env)
          else
            (let (result, db') = verify_otp (verify_db env) (verify_now env) phoneNumber otp
             in if \<not> success result then
                  ((400, VerifyRejected
                      (if message result = [] then ''Invalid OTP'' else message result)
                      (remaining_attempts result)), db', users env)
                else (let (resp, dir') = mintSession env phoneNumber in (resp, db', dir')))
      | _ \<Rightarrow> ((400, VerifyError ''Phone number and OTP are required''), verify_db env, users env))"


section \<open>Sequences of calls, and the words of the specification\<close>

text \<open>
  One call of \<open>create_otp_entry\<close> with its arguments and what it meets (\<open>NOW()\<close>, the
  id drawn), the row it inserts, and a sequence of such calls on a table: a call that
  raises leaves the table as it was.
\<close>

record issue_call =
  call_now :: timestamptz
  call_uuid :: uuid
  call_phone :: string
  call_code :: string
  call_minutes :: int
  call_ip :: "string option"

definition run_create :: "otp_storage \<Rightarrow> issue_call \<Rightarrow> pg_error + (uuid \<times> otp_storage)" where
  "run_create tbl c =
     create_otp_entry tbl (call_now c) (call_uuid c) (call_phone c) (call_code c)
       (call_minutes c) (call_ip c)"

definition issue :: "otp_storage \<Rightarrow> issue_call \<Rightarrow> otp_storage" where
  "issue tbl c = (case run_create tbl c of Inl e \<Rightarrow> tbl | Inr (i, tbl') \<Rightarrow> tbl')"

definition issues :: "otp_storage \<Rightarrow> issue_call list \<Rightarrow> otp_storage" where
  "issues tbl cs = foldl issue tbl cs"

definition new_row :: "issue_call \<Rightarrow> otp_row" where
  "new_row c = \<lparr>otp_id = call_uuid c, phone_number = call_phone c,
                 otp_code = call_code c, created_at = call_now c,
                 expires_at = call_now c + call_minutes c * 60000000,
                 attempts = 0, verified = False, request_ip = call_ip c\<rparr>"

text \<open>
  The live record of a phone: its only row with \<open>verified = FALSE\<close>, and the only row
  with that id.
\<close>

definition live_record :: "otp_storage \<Rightarrow> string \<Rightarrow> otp_row \<Rightarrow> bool" where
  "live_record tbl p r =
     (filter (\<lambda>x. phone_number x = p \<and> verified x = False) tbl = [r]
      \<and> (\<forall>x \<in> set tbl. otp_id x = otp_id r \<longrightarrow> x = r))"

text \<open>Two of the rows \<open>verify_otp\<close> returns.\<close>

definition no_otp_found :: verify_result where
  "no_otp_found = \<lparr>success = False, message = ''No OTP found for this phone number'',
                    remaining_attempts = 0\<rparr>"

definition invalid_otp :: "int \<Rightarrow> verify_result" where
  "invalid_otp n = \<lparr>success = False, message = ''Invalid OTP code'', remaining_attempts = n\<rparr>"

text \<open>
  Consecutive \<open>verify_otp\<close> calls for one phone, each with its own \<open>NOW()\<close> and code:
  the rows returned, in order, and the table left.
\<close>

fun verify_seq ::
  "otp_storage \<Rightarrow> string \<Rightarrow> (timestamptz \<times> string) list \<Rightarrow> verify_result list \<times> otp_storage" where
  "verify_seq tbl p [] = ([], tbl)"
| "verify_seq tbl p ((now, code) # calls) =
     (let (res, tbl1) = verify_otp tbl now p code;
          (rs, tbl2) = verify_seq tbl1 p calls
      in (res # rs, tbl2))"

text \<open>Sample data: a phone, a freshly issued row for it, and two calls.\<close>

definition sample_phone :: string where
  "sample_phone = ''+15551234567''"

definition sample_row :: otp_row where
  "sample_row = \<lparr>otp_id = 41, phone_number = sample_phone, otp_code = ''482913'',
                  created_at = 0, expires_at = 300000000, attempts = 0, verified = False,
                  request_ip = None\<rparr>"

definition sample_call :: "uuid \<Rightarrow> string \<Rightarrow> issue_call" where
  "sample_call u code = \<lparr>call_now = int u * 1000000, call_uuid = u, call_phone = sample_phone,
                         call_code = code, call_minutes = 5, call_ip = None\<rparr>"

text \<open>
  More sample data: five calls with wrong codes, an account of the sample phone, and a
  run of each handler in which nothing fails but the notifier, which is not configured.
\<close>

definition wrong_calls :: "(timestamptz \<times> string) list" where
  "wrong_calls = [(1000000, ''000000''), (2000000, ''111111''), (3000000, ''222222''),
                  (4000000, ''333333''), (5000000, ''444444'')]"

definition sample_account :: auth_user where
  "sample_account = \<lparr>user_id = 7, phone = sample_phone, password = None, phone_confirm = True\<rparr>"

definition sample_verify_env :: "otp_storage \<Rightarrow> timestamptz \<Rightarrow> verify_env" where
  "sample_verify_env tbl now =
     \<lparr>verify_db = tbl, verify_now = now, verify_rpc_fails = False, users = [sample_account],
      listUsers_fails = False, createUser_fails = False, updateUser_fails = False,
      signIn_fails = False, new_user_id = 8,
      random_part1 = ''k3j9x0qa'', random_part2 = ''p7m2w5zt''\<rparr>"

definition sample_verify_request :: verify_request where
  "sample_verify_request = \<lparr>verify_method = ''POST'', verify_phoneNumber = Some sample_phone,
                             verify_otp_field = Some ''482913''\<rparr>"

definition sample_send_env :: send_env where
  "sample_send_env =
     \<lparr>send_db = [], now_rate_limit = 0, now_create = 0, rate_limit_rpc_fails = False,
      create_rpc_fails = False, math_random = 1 / 2, gen_random_uuid = 41,
      evolution = \<lparr>api_configured = False, http = Delivered\<rparr>\<rparr>"

definition sample_send_request :: send_request where
  "sample_send_request = \<lparr>send_method = ''POST'', send_phoneNumber = Some sample_phone,
                           x_forwarded_for = None, remoteAddress = None\<rparr>"

section \<open>Facts about the table operations\<close>

lemma latest_None_iff: "latest rs = None \<longleftrightarrow> rs = []"
  by (induction rs) (auto split: option.splits)

lemma distinct_map_filter_single:
  "distinct (map f xs) \<Longrightarrow> x \<in> set xs \<Longrightarrow> filter (\<lambda>y. f y = f x) xs = [x]"
proof (induction xs)
  case Nil
  then show ?case by simp
next
  case (Cons a xs)
  show ?case
  proof (cases "a = x")
    case True
    have "f x \<notin> f ` set xs"
      using Cons.prems(1) True by simp
    then have "filter (\<lambda>y. f y = f x) xs = []"
      unfolding filter_empty_conv by (metis imageI)
    with True show ?thesis by simp
  next
    case False
    with Cons.prems have "x \<in> set xs" "f a \<noteq> f x" by auto
    with Cons show ?thesis by simp
  qed
qed

lemma distinct_map_filter_le1:
  "distinct (map f xs) \<Longrightarrow> length (filter (\<lambda>y. f y = k) xs) \<le> 1"
proof (cases "\<exists>x \<in> set xs. f x = k")
  case True
  assume d: "distinct (map f xs)"
  from True obtain x where "x \<in> set xs" "f x = k" by blast
  with distinct_map_filter_single[OF d, of x] show ?thesis by simp
next
  case False
  then have "filter (\<lambda>y. f y = k) xs = []" by (auto simp: filter_empty_conv)
  then show ?thesis by simp
qed

lemma create_otp_entry_Inr:
  assumes "create_otp_entry tbl now u p code mins ip = Inr (i, tbl')"
  shows "i = u"
    and "tbl' = delete_phone tbl p @ [\<lparr>otp_id = u, phone_number = p,
                     otp_code = code, created_at = now,
                     expires_at = now + mins * 60000000,
                     attempts = 0, verified = False, request_ip = ip\<rparr>]"
  using assms
  by (auto simp: create_otp_entry_def insert_row_def Let_def split: if_splits)

lemma unique_active_delete_phone:
  "unique_active_otp tbl \<Longrightarrow> unique_active_otp (delete_phone tbl p)"
  by (simp add: unique_active_otp_def delete_phone_def distinct_map_filter)

lemma unique_active_create:
  assumes "unique_active_otp tbl" "create_otp_entry tbl now u p code mins ip = Inr (i, tbl')"
  shows "unique_active_otp tbl'"
proof -
  have "unique_active_otp (delete_phone tbl p)" using assms(1) by (rule unique_active_delete_phone)
  moreover have "\<forall>r \<in> set (delete_phone tbl p). phone_number r \<noteq> p"
    by (simp add: delete_phone_def)
  ultimately show ?thesis
    unfolding create_otp_entry_Inr(2)[OF assms(2)] unique_active_otp_def
    by auto
qed

lemma unique_active_issue: "unique_active_otp tbl \<Longrightarrow> unique_active_otp (issue tbl c)"
  by (auto simp: issue_def run_create_def split: sum.splits dest: unique_active_create)

lemma unique_active_issues: "unique_active_otp tbl \<Longrightarrow> unique_active_otp (issues tbl cs)"
  unfolding issues_def
  by (induction cs arbitrary: tbl) (auto simp: unique_active_issue)

lemma unique_active_live_le1:
  assumes "unique_active_otp tbl"
  shows "length (filter (\<lambda>r. phone_number r = p \<and> verified r = False) tbl) \<le> 1"
proof -
  have "(\<lambda>r. phone_number r = p \<and> verified r = False) = (\<lambda>r. (phone_number r, verified r) = (p, False))"
    by auto
  then show ?thesis
    using distinct_map_filter_le1[of "\<lambda>r. (phone_number r, verified r)" tbl "(p, False)"] assms
    by (simp add: unique_active_otp_def)
qed

lemma table_ok_live_record:
  assumes "table_ok tbl" "r \<in> set tbl" "phone_number r = p" "verified r = False"
  shows "live_record tbl p r"
proof -
  have d: "distinct (map (\<lambda>r. (phone_number r, verified r)) tbl)"
    using assms(1) by (simp add: table_ok_def unique_active_otp_def)
  have "filter (\<lambda>x. phone_number x = p \<and> verified x = False) tbl
          = filter (\<lambda>x. (phone_number x, verified x) = (phone_number r, verified r)) tbl"
    using assms(3,4) by (intro filter_cong) auto
  then have "filter (\<lambda>x. phone_number x = p \<and> verified x = False) tbl = [r]"
    by (simp only: distinct_map_filter_single[OF d assms(2)])
  moreover have "\<forall>x \<in> set tbl. otp_id x = otp_id r \<longrightarrow> x = r"
    using assms(1,2) by (auto simp: table_ok_def primary_key_ok_def distinct_map inj_on_def)
  ultimately show ?thesis by (simp add: live_record_def)
qed

lemma delete_id_increment: "delete_id (increment_attempts tbl i) i = delete_id tbl i"
  by (induction tbl) (auto simp: delete_id_def increment_attempts_def)

lemma live_after_delete:
  assumes "live_record tbl p r"
  shows "filter (\<lambda>x. phone_number x = p \<and> verified x = False) (delete_id tbl (otp_id r)) = []"
proof -
  have "filter (\<lambda>x. phone_number x = p \<and> verified x = False) (delete_id tbl (otp_id r))
        = filter (\<lambda>x. otp_id x \<noteq> otp_id r) (filter (\<lambda>x. phone_number x = p \<and> verified x = False) tbl)"
    by (simp add: delete_id_def conj_commute)
  also have "\<dots> = []" using assms by (simp add: live_record_def)
  finally show ?thesis .
qed

lemma id_gone_after_delete: "otp_id r \<notin> otp_id ` set (delete_id tbl (otp_id r))"
  by (auto simp: delete_id_def)

lemma live_after_increment:
  assumes "live_record tbl p r"
  shows "live_record (increment_attempts tbl (otp_id r)) p (r\<lparr>attempts := attempts r + 1\<rparr>)"
proof -
  let ?g = "\<lambda>x. if otp_id x = otp_id r then x\<lparr>attempts := attempts x + 1\<rparr> else x"
  let ?P = "\<lambda>x. phone_number x = p \<and> verified x = False"
  have "filter ?P (map ?g tbl) = map ?g (filter (?P \<circ> ?g) tbl)"
    by (simp add: filter_map)
  also have "?P \<circ> ?g = ?P" by (auto simp: fun_eq_iff)
  also have "map ?g (filter ?P tbl) = [r\<lparr>attempts := attempts r + 1\<rparr>]"
    using assms by (simp add: live_record_def)
  finally have a: "filter ?P (increment_attempts tbl (otp_id r)) = [r\<lparr>attempts := attempts r + 1\<rparr>]"
    by (simp add: increment_attempts_def)
  have b: "\<forall>x \<in> set (increment_attempts tbl (otp_id r)).
             otp_id x = otp_id (r\<lparr>attempts := attempts r + 1\<rparr>) \<longrightarrow> x = r\<lparr>attempts := attempts r + 1\<rparr>"
    using assms by (auto simp: increment_attempts_def live_record_def)
  from a b show ?thesis by (simp add: live_record_def)
qed

lemma verify_otp_none:
  assumes "filter (\<lambda>x. phone_number x = p \<and> verified x = False) tbl = []"
  shows "verify_otp tbl now p code = (no_otp_found, tbl)"
  using assms by (simp add: verify_otp_def no_otp_found_def)

lemma verify_otp_live:
  assumes "live_record tbl p r"
  shows "verify_otp tbl now p code =
     (if expires_at r < now then
        (\<lparr>success = False, message = ''OTP has expired'', remaining_attempts = 0\<rparr>,
         delete_id tbl (otp_id r))
      else if attempts r \<ge> 5 then
        (\<lparr>success = False, message = ''Maximum verification attempts exceeded'',
          remaining_attempts = 0\<rparr>, delete_id tbl (otp_id r))
      else if otp_code r = code then
        (\<lparr>success = True, message = ''OTP verified successfully'',
          remaining_attempts = 4 - attempts r\<rparr>, delete_id tbl (otp_id r))
      else
        (\<lparr>success = False, message = ''Invalid OTP code'',
          remaining_attempts = 4 - attempts r\<rparr>, increment_attempts tbl (otp_id r)))"
  using assms by (simp add: verify_otp_def live_record_def Let_def delete_id_increment)

lemma row_in_live: "live_record tbl p r \<Longrightarrow> r \<in> set tbl"
proof -
  assume "live_record tbl p r"
  then have "r \<in> set (filter (\<lambda>x. phone_number x = p \<and> verified x = False) tbl)"
    by (simp add: live_record_def)
  then show ?thesis by simp
qed

lemma verify_seq_wrong:
  assumes "live_record tbl p r"
    and "attempts r + int (length calls) \<le> 5"
    and "\<forall>(n, c) \<in> set calls. \<not> expires_at r < n \<and> c \<noteq> otp_code r"
  shows "\<exists>tbl'. verify_seq tbl p calls =
            (map (\<lambda>k. invalid_otp (4 - attempts r - int k)) [0..<length calls], tbl')
          \<and> live_record tbl' p (r\<lparr>attempts := attempts r + int (length calls)\<rparr>)"
  using assms
proof (induction calls arbitrary: tbl r)
  case Nil
  then show ?case by simp
next
  case (Cons a calls)
  obtain n c where a: "a = (n, c)" by (cases a)
  let ?r = "r\<lparr>attempts := attempts r + 1\<rparr>"
  let ?tbl = "increment_attempts tbl (otp_id r)"
  have step: "verify_otp tbl n p c = (invalid_otp (4 - attempts r), ?tbl)"
    using Cons.prems a by (auto simp: verify_otp_live[OF Cons.prems(1)] invalid_otp_def)
  have live': "live_record ?tbl p ?r" using Cons.prems(1) by (rule live_after_increment)
  have "\<exists>tbl'. verify_seq ?tbl p calls =
            (map (\<lambda>k. invalid_otp (4 - attempts ?r - int k)) [0..<length calls], tbl')
          \<and> live_record tbl' p (?r\<lparr>attempts := attempts ?r + int (length calls)\<rparr>)"
    using Cons.prems by (intro Cons.IH[OF live']) auto
  then obtain tbl' where rest: "verify_seq ?tbl p calls =
            (map (\<lambda>k. invalid_otp (4 - attempts ?r - int k)) [0..<length calls], tbl')"
      and l: "live_record tbl' p (?r\<lparr>attempts := attempts ?r + int (length calls)\<rparr>)"
    by blast
  have m: "map (\<lambda>k. invalid_otp (4 - attempts r - int k)) [0..<length (a # calls)]
         = invalid_otp (4 - attempts r) # map (\<lambda>k. invalid_otp (4 - attempts ?r - int k)) [0..<length calls]"
    by (simp add: upt_rec[of 0] map_Suc_upt[symmetric] algebra_simps del: upt_Suc)
  have "verify_seq tbl p (a # calls) =
      (map (\<lambda>k. invalid_otp (4 - attempts r - int k)) [0..<length (a # calls)], tbl')"
    unfolding m using step rest by (simp add: a)
  moreover have "live_record tbl' p (r\<lparr>attempts := attempts r + int (length (a # calls))\<rparr>)"
    using l by (simp add: algebra_simps)
  ultimately show ?case by blast
qed

lemma latest_created_at:
  "latest rs = Some r \<Longrightarrow> created_at r = Max (created_at ` set rs)"
proof (induction rs arbitrary: r)
  case Nil
  then show ?case by simp
next
  case (Cons a rs)
  show ?case
  proof (cases "latest rs")
    case None
    then have "rs = []" by (simp add: latest_None_iff)
    with Cons.prems show ?thesis by simp
  next
    case (Some r')
    then have ne: "rs \<noteq> []" by auto
    have m: "created_at r' = Max (created_at ` set rs)" using Cons.IH[OF Some] .
    have "Max (created_at ` set (a # rs)) = max (created_at a) (Max (created_at ` set rs))"
      using ne by simp
    with Cons.prems Some m show ?thesis by (auto split: if_splits)
  qed
qed

lemma live_delete_id_eq:
  assumes "live_record tbl p r"
  shows "delete_id tbl (otp_id r) = filter (\<lambda>x. x \<noteq> r) tbl"
  unfolding delete_id_def using assms
  by (intro filter_cong) (auto simp: live_record_def)

lemma live_increment_eq:
  assumes "live_record tbl p r"
  shows "increment_attempts tbl (otp_id r)
           = map (\<lambda>x. if x = r then r\<lparr>attempts := attempts r + 1\<rparr> else x) tbl"
  unfolding increment_attempts_def using assms
  by (intro map_cong) (auto simp: live_record_def)

lemma epoch_seconds_nearest:
  "2 * \<bar>d - 1000000 * epoch_seconds d\<bar> \<le> 1000000
   \<and> (2 * \<bar>d - 1000000 * epoch_seconds d\<bar> = 1000000 \<longrightarrow> \<bar>d\<bar> < \<bar>1000000 * epoch_seconds d\<bar>)"
proof (cases "0 \<le> d")
  case True
  define q where "q = (d + 500000) div 1000000"
  define m where "m = (d + 500000) mod 1000000"
  have e: "d + 500000 = 1000000 * q + m" and m: "0 \<le> m" "m < 1000000"
    by (simp_all add: q_def m_def)
  have q: "epoch_seconds d = q" using True by (simp add: epoch_seconds_def q_def)
  have diff: "d - 1000000 * q = m - 500000" using e by linarith
  have a: "2 * \<bar>m - 500000\<bar> \<le> 1000000" using m by (simp add: abs_if)
  have b: "\<bar>d\<bar> < \<bar>1000000 * q\<bar>" if t: "2 * \<bar>m - 500000\<bar> = 1000000"
  proof -
    from t m have "m = 0" by (simp add: abs_if split: if_splits)
    with e True have "d = 1000000 * q - 500000" "0 < q" by linarith+
    then show ?thesis using True by (simp add: abs_if)
  qed
  show ?thesis unfolding q diff using a b by blast
next
  case False
  define q where "q = (- d + 500000) div 1000000"
  define m where "m = (- d + 500000) mod 1000000"
  have e: "- d + 500000 = 1000000 * q + m" and m: "0 \<le> m" "m < 1000000"
    by (simp_all add: q_def m_def)
  have q: "epoch_seconds d = - q" using False by (simp add: epoch_seconds_def q_def)
  have diff: "d - 1000000 * (- q) = 500000 - m" using e by linarith
  have a: "2 * \<bar>500000 - m\<bar> \<le> 1000000" using m by (simp add: abs_if)
  have b: "\<bar>d\<bar> < \<bar>1000000 * (- q)\<bar>" if t: "2 * \<bar>500000 - m\<bar> = 1000000"
  proof -
    from t m have "m = 0" by (simp add: abs_if split: if_splits)
    with e False have "d = 500000 - 1000000 * q" "0 < q" by linarith+
    then show ?thesis using False by (simp add: abs_if)
  qed
  show ?thesis unfolding q diff using a b by blast
qed

lemma nearest_second_unique:
  fixes d e e' :: int
  assumes "2 * \<bar>d - 1000000 * e\<bar> \<le> 1000000"
    and "2 * \<bar>d - 1000000 * e\<bar> = 1000000 \<longrightarrow> \<bar>d\<bar> < \<bar>1000000 * e\<bar>"
    and "2 * \<bar>d - 1000000 * e'\<bar> \<le> 1000000"
    and "2 * \<bar>d - 1000000 * e'\<bar> = 1000000 \<longrightarrow> \<bar>d\<bar> < \<bar>1000000 * e'\<bar>"
  shows "e = e'"
proof (rule ccontr)
  assume ne: "e \<noteq> e'"
  have b: "- 500000 \<le> d - 1000000 * e" "d - 1000000 * e \<le> 500000"
    using assms(1) by (simp_all add: abs_if split: if_splits)
  have b': "- 500000 \<le> d - 1000000 * e'" "d - 1000000 * e' \<le> 500000"
    using assms(3) by (simp_all add: abs_if split: if_splits)
  have "e' = e + 1 \<or> e = e' + 1" using ne b b' by linarith
  then show False
  proof
    assume s: "e' = e + 1"
    with b b' have d: "d = 1000000 * e + 500000" by linarith
    have d': "d = 1000000 * e' - 500000" using d s by linarith
    have t1: "\<bar>d\<bar> < \<bar>1000000 * e\<bar>" using assms(2) d by simp
    have t2: "\<bar>d\<bar> < \<bar>1000000 * e'\<bar>" using assms(4) d' by simp
    show False
    proof (cases "0 \<le> e")
      case True
      then show False using t1 d by (simp add: abs_if split: if_splits)
    next
      case False
      then have "e' \<le> 0" using s by linarith
      then show False using t2 d' by (simp add: abs_if split: if_splits)
    qed
  next
    assume s: "e = e' + 1"
    with b b' have d': "d = 1000000 * e' + 500000" by linarith
    have d: "d = 1000000 * e - 500000" using d' s by linarith
    have t1: "\<bar>d\<bar> < \<bar>1000000 * e\<bar>" using assms(2) d by simp
    have t2: "\<bar>d\<bar> < \<bar>1000000 * e'\<bar>" using assms(4) d' by simp
    show False
    proof (cases "0 \<le> e'")
      case True
      then show False using t2 d' by (simp add: abs_if split: if_splits)
    next
      case False
      then have "e \<le> 0" using s by linarith
      then show False using t1 d by (simp add: abs_if split: if_splits)
    qed
  qed
qed

lemma create_otp_entry_fresh:
  assumes "create_otp_entry tbl now u p code mins ip = Inr (i, tbl')"
  shows "u \<notin> otp_id ` set (delete_phone tbl p)"
  using assms
  by (auto simp: create_otp_entry_def insert_row_def Let_def split: if_splits)

lemma create_otp_entry_live:
  assumes "create_otp_entry tbl now u p code mins ip = Inr (i, tbl')"
  shows "live_record tbl' p \<lparr>otp_id = u, phone_number = p,
                     otp_code = code, created_at = now,
                     expires_at = now + mins * 60000000,
                     attempts = 0, verified = False, request_ip = ip\<rparr>"
  using create_otp_entry_fresh[OF assms]
  unfolding create_otp_entry_Inr(2)[OF assms] live_record_def
  by (auto simp: delete_phone_def)

lemma find_map_preserving:
  assumes "\<And>x. P (g x) = P x"
  shows "find P (map g xs) = map_option g (find P xs)"
  using assms by (induction xs) auto

lemma find_updateUserById:
  "find (\<lambda>u. phone u = ph) (updateUserById dir i pw)
     = map_option (\<lambda>u. if user_id u = i then u\<lparr>password := Some pw\<rparr> else u)
         (find (\<lambda>u. phone u = ph) dir)"
  unfolding updateUserById_def by (rule find_map_preserving) simp

lemma mintSession_existing:
  assumes "find (\<lambda>u. phone u = ph) (users env) = Some a"
    and "\<not> listUsers_fails env" "\<not> updateUser_fails env" "\<not> signIn_fails env"
  shows "mintSession env ph =
           ((200, VerifySuccess True ''OTP verified successfully'' (Session (user_id a))),
            updateUserById (users env) (user_id a) (tempPassword env))"
  using assms
  by (simp add: mintSession_def Let_def signInWithPassword_def find_updateUserById)

lemma mintSession_success:
  assumes "mintSession env ph = ((200, VerifySuccess b m s), dir')"
  shows "signInWithPassword dir' ph (tempPassword env) = Inr s"
  using assms
  by (auto simp: mintSession_def Let_def split: if_splits option.splits sum.splits prod.splits)

lemma isValidFormat_plus:
  assumes "isValidFormat ph"
  shows "ph \<noteq> []" "startsWith ph ''+''"
  using assms by (cases ph; auto simp: isValidFormat_def startsWith_def)+

lemma mintSession_new_account:
  assumes "find (\<lambda>u. phone u = ph) (users env) = None"
  shows "fst (fst (mintSession env ph)) = 500"
  using assms
  by (auto simp: mintSession_def Let_def createUser_def split: if_splits sum.splits prod.splits)

section \<open>Facts about rounding to a double\<close>

lemma ilog2_bounds: "0 < n \<Longrightarrow> 2 ^ ilog2 n \<le> n \<and> n < 2 ^ (ilog2 n + 1)"
proof (induction n rule: ilog2.induct)
  case (1 n)
  show ?case
  proof (cases "n < 2")
    case True
    with "1.prems" have "n = 1" by simp
    then show ?thesis by (simp add: ilog2.simps)
  next
    case False
    then have "0 < n div 2" by simp
    with 1 False have ih: "2 ^ ilog2 (n div 2) \<le> n div 2" "n div 2 < 2 ^ (ilog2 (n div 2) + 1)"
      by simp_all
    have s: "ilog2 n = Suc (ilog2 (n div 2))" using False by (simp add: ilog2.simps)
    have "2 * (n div 2) \<le> n" "n < 2 * (n div 2) + 2" by presburger+
    with ih show ?thesis unfolding s by simp
  qed
qed

lemma pow2_powr: "pow2 e = 2 powr (real_of_int e)"
proof (cases "0 \<le> e")
  case True
  then show ?thesis by (simp add: pow2_def powr_realpow[symmetric])
next
  case False
  then have "real_of_int e = - real (nat (- e))" by simp
  then have "2 powr (real_of_int e) = 1 / 2 powr (real (nat (- e)))"
    by (simp only: powr_minus_divide)
  also have "\<dots> = 1 / 2 ^ nat (- e)" by (simp only: powr_realpow zero_less_numeral)
  finally show ?thesis using False by (simp add: pow2_def)
qed

lemma pow2_pos: "0 < pow2 e"
  by (simp add: pow2_powr)

lemma pow2_add: "pow2 (a + b) = pow2 a * pow2 b"
  by (simp add: pow2_powr powr_add)

lemma pow2_less_iff: "pow2 a < pow2 b \<longleftrightarrow> a < b"
  by (simp add: pow2_powr)

lemma pow2_le_iff: "pow2 a \<le> pow2 b \<longleftrightarrow> a \<le> b"
  by (simp add: pow2_powr)

lemma pow2_nat: "pow2 (int k) = 2 ^ k"
  by (simp add: pow2_def)

lemma pow2_diff_nat: "a \<le> b \<Longrightarrow> pow2 b = pow2 a * 2 ^ nat (b - a)"
proof -
  assume "a \<le> b"
  then have "pow2 b = pow2 (a + int (nat (b - a)))" by simp
  then show ?thesis by (simp only: pow2_add pow2_nat)
qed

lemma exponent_bounds:
  assumes "0 < x"
  shows "pow2 (exponent x) \<le> x" "x < pow2 (exponent x + 1)"
proof -
  have "pow2 (exponent x) \<le> x \<and> x < pow2 (exponent x + 1)"
  proof (cases "1 \<le> x")
    case True
    define n where "n = nat \<lfloor>x\<rfloor>"
    have n: "0 < n" "real n \<le> x" "x < real n + 1"
      using True by (simp_all add: n_def)
    have e: "exponent x = int (ilog2 n)" using True by (simp add: exponent_def n_def)
    from ilog2_bounds[OF n(1)] have b: "2 ^ ilog2 n \<le> n" "n + 1 \<le> 2 ^ (ilog2 n + 1)" by simp_all
    have "(2::real) ^ ilog2 n \<le> real n" using of_nat_mono[OF b(1), where 'a = real] by simp
    moreover have "real n + 1 \<le> 2 ^ (ilog2 n + 1)"
      using of_nat_mono[OF b(2), where 'a = real] by simp
    moreover have "exponent x + 1 = int (ilog2 n + 1)" unfolding e by simp
    ultimately show ?thesis using n unfolding e
      by (simp only: pow2_nat) linarith
  next
    case False
    define M where "M = \<lceil>1 / x\<rceil>"
    define n where "n = nat (M - 1)"
    have ix: "1 < 1 / x" using assms False by simp
    have M: "real_of_int M - 1 < 1 / x" "1 / x \<le> real_of_int M" unfolding M_def by linarith+
    have M2: "2 \<le> M" using ix M(2) by linarith
    have n: "0 < n" "real n = real_of_int M - 1" using M2 by (simp_all add: n_def)
    have e: "exponent x = - int (ilog2 n) - 1" using False by (simp add: exponent_def n_def M_def)
    from ilog2_bounds[OF n(1)] have b: "2 ^ ilog2 n \<le> n" "n + 1 \<le> 2 ^ (ilog2 n + 1)" by simp_all
    have b1: "(2::real) ^ ilog2 n \<le> real n" using of_nat_mono[OF b(1), where 'a = real] by simp
    have b2: "real n + 1 \<le> 2 ^ (ilog2 n + 1)"
      using of_nat_mono[OF b(2), where 'a = real] by simp
    have u: "1 / x \<le> 2 ^ (ilog2 n + 1)" using M(2) n(2) b2 by linarith
    have l: "2 ^ ilog2 n < 1 / x" using M(1) n(2) b1 by linarith
    have p1: "pow2 (exponent x) = 1 / 2 ^ (ilog2 n + 1)"
      unfolding e by (simp add: pow2_def nat_add_distrib)
    have p2: "pow2 (exponent x + 1) = 1 / 2 ^ ilog2 n"
      unfolding e by (simp add: pow2_def)
    have "1 / 2 ^ (ilog2 n + 1) \<le> x"
      using u assms by (simp add: field_simps)
    moreover have "x < 1 / 2 ^ ilog2 n"
      using l assms by (simp add: field_simps)
    ultimately show ?thesis unfolding p1 p2 by simp
  qed
  then show "pow2 (exponent x) \<le> x" "x < pow2 (exponent x + 1)" by simp_all
qed

lemma exponent_le: "0 < x \<Longrightarrow> x < pow2 (k + 1) \<Longrightarrow> exponent x \<le> k"
  using exponent_bounds(1)[of x] pow2_less_iff[of "exponent x" "k + 1"] by simp

lemma exponent_ge: "0 < x \<Longrightarrow> pow2 k \<le> x \<Longrightarrow> k \<le> exponent x"
  using exponent_bounds(2)[of x] pow2_less_iff[of k "exponent x + 1"] by simp

lemma round_even_of_int: "round_even (real_of_int N) = N"
  by (simp add: round_even_def)

lemma round_even_le: "q \<le> real_of_int N \<Longrightarrow> round_even q \<le> N"
proof -
  assume a: "q \<le> real_of_int N"
  have f: "\<lfloor>q\<rfloor> \<le> N" using a by (simp add: floor_le_iff)
  show ?thesis
  proof (cases "\<lfloor>q\<rfloor> = N")
    case True
    then have "q = real_of_int N" using a by linarith
    then show ?thesis by (simp add: round_even_of_int)
  next
    case False
    with f have "\<lfloor>q\<rfloor> + 1 \<le> N" by simp
    then show ?thesis by (simp add: round_even_def Let_def)
  qed
qed

lemma round_even_ge: "real_of_int N \<le> q \<Longrightarrow> N \<le> round_even q"
proof -
  assume "real_of_int N \<le> q"
  then have "N \<le> \<lfloor>q\<rfloor>" by (simp add: le_floor_iff)
  then show ?thesis by (simp add: round_even_def Let_def)
qed

lemma round_even_below_half: "q < real_of_int N - 1 / 2 \<Longrightarrow> round_even q \<le> N - 1"
proof -
  assume a: "q < real_of_int N - 1 / 2"
  then have "\<lfloor>q\<rfloor> < N" by (simp add: floor_less_iff)
  then have f: "\<lfloor>q\<rfloor> \<le> N - 1" by simp
  show ?thesis
  proof (cases "\<lfloor>q\<rfloor> = N - 1")
    case True
    then have "q - real_of_int \<lfloor>q\<rfloor> < 1 / 2" using a by simp
    then show ?thesis using True by (simp add: round_even_def Let_def)
  next
    case False
    with f have "\<lfloor>q\<rfloor> + 1 \<le> N - 1" by simp
    then show ?thesis by (simp add: round_even_def Let_def)
  qed
qed

lemma round_even_error: "\<bar>real_of_int (round_even q) - q\<bar> \<le> 1 / 2"
proof -
  define f where "f = \<lfloor>q\<rfloor>"
  have b: "real_of_int f \<le> q" "q < real_of_int f + 1" unfolding f_def by linarith+
  have r: "round_even q =
      (if q - real_of_int f < 1 / 2 then f else if 1 / 2 < q - real_of_int f then f + 1
       else if even f then f else f + 1)"
    by (simp add: round_even_def f_def Let_def)
  show ?thesis unfolding r using b by (auto simp: abs_if)
qed

lemma ulp_form:
  assumes "0 < x" "x < pow2 (k + 1)" "- 1022 \<le> k"
  shows "\<exists>j. ulp x = pow2 j \<and> j \<le> k - 52"
proof -
  have "exponent x \<le> k" using assms(1,2) by (rule exponent_le)
  then have "max (exponent x) (- 1022) - 52 \<le> k - 52" using assms(3) by simp
  then show ?thesis unfolding ulp_def by blast
qed

lemma ulp_pos: "0 < ulp x"
  by (simp add: ulp_def pow2_pos)

lemma double_round_pos: "0 < x \<Longrightarrow> double_round x = ulp x * real_of_int (round_even (x / ulp x))"
  by (simp add: double_round_def)

lemma double_round_nonneg: "0 \<le> x \<Longrightarrow> 0 \<le> double_round x"
proof (cases "x = 0")
  case True
  then show ?thesis by (simp add: double_round_def)
next
  case False
  assume "0 \<le> x"
  with False have x: "0 < x" by simp
  have "real_of_int 0 \<le> x / ulp x" using x ulp_pos[of x] by simp
  then have "0 \<le> round_even (x / ulp x)" by (rule round_even_ge)
  then show ?thesis unfolding double_round_pos[OF x] using ulp_pos[of x] by simp
qed

lemma double_round_le:
  assumes "0 < x" "x \<le> c" "x < pow2 (k + 1)" "- 1022 \<le> k"
    and "c = real_of_int M * pow2 (k - 52)"
  shows "double_round x \<le> c"
proof -
  from ulp_form[OF assms(1,3,4)] obtain j where j: "ulp x = pow2 j" "j \<le> k - 52" by blast
  have c: "c = real_of_int (M * 2 ^ nat (k - 52 - j)) * pow2 j"
    unfolding assms(5) pow2_diff_nat[OF j(2)] by simp
  have "x / pow2 j \<le> real_of_int (M * 2 ^ nat (k - 52 - j))"
    using assms(2) pow2_pos[of j] unfolding c by (simp add: field_simps)
  then have "round_even (x / pow2 j) \<le> M * 2 ^ nat (k - 52 - j)" by (rule round_even_le)
  then have "real_of_int (round_even (x / pow2 j)) \<le> real_of_int (M * 2 ^ nat (k - 52 - j))"
    by (simp only: of_int_le_iff)
  then have "pow2 j * real_of_int (round_even (x / pow2 j)) \<le> c"
    unfolding c using pow2_pos[of j] by (simp add: mult.commute)
  then show ?thesis unfolding double_round_pos[OF assms(1)] j(1) .
qed

lemma double_round_ge:
  assumes "0 < x" "c \<le> x" "x < pow2 (k + 1)" "- 1022 \<le> k"
    and "c = real_of_int M * pow2 (k - 52)"
  shows "c \<le> double_round x"
proof -
  from ulp_form[OF assms(1,3,4)] obtain j where j: "ulp x = pow2 j" "j \<le> k - 52" by blast
  have c: "c = real_of_int (M * 2 ^ nat (k - 52 - j)) * pow2 j"
    unfolding assms(5) pow2_diff_nat[OF j(2)] by simp
  have "real_of_int (M * 2 ^ nat (k - 52 - j)) \<le> x / pow2 j"
    using assms(2) pow2_pos[of j] unfolding c by (simp add: field_simps)
  then have "M * 2 ^ nat (k - 52 - j) \<le> round_even (x / pow2 j)" by (rule round_even_ge)
  then have "real_of_int (M * 2 ^ nat (k - 52 - j)) \<le> real_of_int (round_even (x / pow2 j))"
    by (simp only: of_int_le_iff)
  then have "c \<le> pow2 j * real_of_int (round_even (x / pow2 j))"
    unfolding c using pow2_pos[of j] by (simp add: mult.commute)
  then show ?thesis unfolding double_round_pos[OF assms(1)] j(1) .
qed

lemma double_round_error:
  assumes "0 < x" "x < pow2 (k + 1)" "- 1022 \<le> k"
  shows "\<bar>double_round x - x\<bar> \<le> pow2 (k - 53)"
proof -
  from ulp_form[OF assms] obtain j where j: "ulp x = pow2 j" "j \<le> k - 52" by blast
  let ?q = "x / pow2 j"
  have x: "x = pow2 j * ?q" using pow2_pos[of j] by simp
  have "double_round x - x = pow2 j * (real_of_int (round_even ?q) - ?q)"
    unfolding double_round_pos[OF assms(1)] j(1) using pow2_pos[of j] by (simp add: algebra_simps)
  then have "\<bar>double_round x - x\<bar> = pow2 j * \<bar>real_of_int (round_even ?q) - ?q\<bar>"
    using pow2_pos[of j] by (simp add: abs_mult)
  also have "\<dots> \<le> pow2 j * (1 / 2)"
    using round_even_error[of ?q] pow2_pos[of j] by (intro mult_left_mono) simp_all
  also have "\<dots> = pow2 (j - 1)"
  proof -
    have "pow2 j = pow2 (j - 1) * 2 ^ nat (j - (j - 1))" by (intro pow2_diff_nat) simp
    then show ?thesis by simp
  qed
  also have "\<dots> \<le> pow2 (k - 53)" using j(2) by (simp add: pow2_le_iff)
  finally show ?thesis .
qed

lemma double_round_exact:
  assumes "0 < x" "pow2 e \<le> x" "x < pow2 (e + 1)" "- 1022 \<le> e"
    and "x = real_of_int N * pow2 (e - 52)"
  shows "double_round x = x"
proof -
  have "exponent x = e"
    using exponent_le[OF assms(1,3)] exponent_ge[OF assms(1,2)] by simp
  then have u: "ulp x = pow2 (e - 52)" using assms(4) by (simp add: ulp_def)
  have "x / pow2 (e - 52) = real_of_int N" using assms(5) pow2_pos[of "e - 52"] by simp
  then show ?thesis
    unfolding double_round_pos[OF assms(1)] u using assms(5)
    by (simp add: round_even_of_int)
qed

lemma double_round_grid:
  assumes "0 < k" "k < 2 ^ 53"
  shows "double_round (real_of_int k / 2 ^ 53) = real_of_int k / 2 ^ 53"
proof -
  let ?x = "real_of_int k / 2 ^ 53"
  have x0: "0 < ?x" using assms(1) by simp
  have p53: "pow2 (- 53) = 1 / 2 ^ 53" by (simp add: pow2_def)
  have "1 \<le> real_of_int k" using assms(1) by simp
  then have lo: "pow2 (- 53) \<le> ?x" unfolding p53 by (simp add: divide_right_mono)
  have "real_of_int k < real_of_int (2 ^ 53)" using assms(2) by (simp only: of_int_less_iff)
  then have "real_of_int k < 2 ^ 53" by simp
  then have hi: "?x < pow2 (- 1 + 1)" by (simp add: pow2_def)
  define e where "e = exponent ?x"
  have e: "- 53 \<le> e" "e \<le> - 1"
    unfolding e_def using exponent_ge[OF x0 lo] exponent_le[OF x0 hi] by simp_all
  have b: "pow2 e \<le> ?x" "?x < pow2 (e + 1)" unfolding e_def using exponent_bounds[OF x0] by simp_all
  have "pow2 (- 53) = pow2 (e - 52) * pow2 (- 1 - e)" by (simp add: pow2_add[symmetric])
  also have "pow2 (- 1 - e) = 2 ^ nat (- 1 - e)" using e(2) by (simp add: pow2_def)
  finally have q: "pow2 (- 53) = pow2 (e - 52) * 2 ^ nat (- 1 - e)" .
  have "?x = real_of_int k * pow2 (- 53)" by (simp add: p53)
  also have "\<dots> = real_of_int k * (pow2 (e - 52) * 2 ^ nat (- 1 - e))" by (simp only: q)
  also have "\<dots> = real_of_int (k * 2 ^ nat (- 1 - e)) * pow2 (e - 52)" by simp
  finally have g: "?x = real_of_int (k * 2 ^ nat (- 1 - e)) * pow2 (e - 52)" .
  have "- 1022 \<le> e" using e(1) by simp
  from double_round_exact[OF x0 b(1) b(2) this g] show ?thesis .
qed

lemma double_below_one:
  assumes "is_double r" "0 \<le> r" "r < 1"
  shows "r \<le> 1 - 1 / 2 ^ 53"
proof (cases "r = 0")
  case True
  then show ?thesis by simp
next
  case False
  with assms(2) have r0: "0 < r" by simp
  have "r < pow2 (- 1 + 1)" using assms(3) by (simp add: pow2_def)
  then have e1: "exponent r \<le> - 1" using r0 by (intro exponent_le) simp_all
  show ?thesis
  proof (cases "exponent r = - 1")
    case True
    then have u: "ulp r = 1 / 2 ^ 53" by (simp add: ulp_def pow2_def)
    define N where "N = round_even (r / ulp r)"
    have "ulp r * real_of_int N = r"
      using assms(1) unfolding is_double_def double_round_pos[OF r0] N_def .
    then have r: "r = real_of_int N / 2 ^ 53" unfolding u by simp
    then have "real_of_int N < 2 ^ 53" using assms(3) by simp
    then have "real_of_int N < real_of_int (2 ^ 53)" by simp
    then have "N < 2 ^ 53" by (simp only: of_int_less_iff)
    then have "N \<le> 2 ^ 53 - 1" by simp
    then have "real_of_int N \<le> real_of_int (2 ^ 53 - 1)" by (simp only: of_int_le_iff)
    then have "real_of_int N \<le> 2 ^ 53 - 1" by simp
    then show ?thesis unfolding r by (simp add: field_simps)
  next
    case False
    with e1 have "exponent r + 1 \<le> - 1" by simp
    then have "pow2 (exponent r + 1) \<le> pow2 (- 1)" by (simp only: pow2_le_iff)
    then have "r < 1 / 2" using exponent_bounds(2)[OF r0] by (simp add: pow2_def)
    then show ?thesis by simp
  qed
qed

section \<open>Facts about the generated code\<close>

lemma below_ten: "(d::nat) < 10 \<Longrightarrow> d \<in> {0, 1, 2, 3, 4, 5, 6, 7, 8, 9}"
  by auto

lemma is_digit_digit_char: "d < 10 \<Longrightarrow> is_digit (digit_char d)"
  using below_ten[of d] by (auto simp: is_digit_def digit_char_def)

lemma digit_char_zero_iff: "d < 10 \<Longrightarrow> digit_char d = CHR ''0'' \<longleftrightarrow> d = 0"
  using below_ten[of d] by (auto simp: digit_char_def)

lemma digits_nonempty: "digits n \<noteq> []"
  by (subst digits.simps) simp

lemma digits_all_digit: "list_all is_digit (digits n)"
proof (induction n rule: digits.induct)
  case (1 n)
  show ?case
  proof (cases "n < 10")
    case True
    then show ?thesis by (subst digits.simps) (simp add: is_digit_digit_char)
  next
    case False
    then show ?thesis using 1 by (subst digits.simps) (simp add: is_digit_digit_char)
  qed
qed

lemma digits_hd_nonzero: "0 < n \<Longrightarrow> hd (digits n) \<noteq> CHR ''0''"
proof (induction n rule: digits.induct)
  case (1 n)
  show ?case
  proof (cases "n < 10")
    case True
    then show ?thesis using "1.prems" by (subst digits.simps) (simp add: digit_char_zero_iff)
  next
    case False
    then have "0 < n div 10" by simp
    then have "hd (digits (n div 10)) \<noteq> CHR ''0''" using 1 False by simp
    then show ?thesis using False digits_nonempty[of "n div 10"]
      by (subst digits.simps) simp
  qed
qed

lemma digits_length_six:
  assumes "100000 \<le> n" "n \<le> 999999"
  shows "length (digits n) = 6"
proof -
  have "length (digits (n div 100000)) = 1" using assms by (subst digits.simps) simp
  then have "length (digits (n div 10000)) = 2"
    using assms by (subst digits.simps) (simp add: div_mult2_eq[symmetric])
  then have "length (digits (n div 1000)) = 3"
    using assms by (subst digits.simps) (simp add: div_mult2_eq[symmetric])
  then have "length (digits (n div 100)) = 4"
    using assms by (subst digits.simps) (simp add: div_mult2_eq[symmetric])
  then have "length (digits (n div 10)) = 5"
    using assms by (subst digits.simps) (simp add: div_mult2_eq[symmetric])
  then show ?thesis
    using assms by (subst digits.simps) simp
qed

lemma p20: "pow2 (19 + 1) = 1048576"
  by (simp add: pow2_def)
lemma p33: "pow2 (19 - 52) = 1 / 8589934592"
  by (simp add: pow2_def)
lemma p34: "pow2 (19 - 53) = 1 / 17179869184"
  by (simp add: pow2_def)

lemma sum_round_bounds:
  assumes "0 \<le> y" "y \<le> 900000 - 1 / 8589934592"
  shows "100000 \<le> double_round (100000 + y)" "double_round (100000 + y) < 1000000"
proof -
  let ?s = "100000 + y"
  have s: "0 < ?s" "?s < pow2 (19 + 1)" using assms unfolding p20 by simp_all
  have lo: "(100000::real) = real_of_int 858993459200000 * pow2 (19 - 52)" unfolding p33 by simp
  have hi: "(1000000 - 1 / 8589934592 :: real) = real_of_int 8589934591999999 * pow2 (19 - 52)"
    unfolding p33 by simp
  have "100000 \<le> ?s" using assms(1) by simp
  from double_round_ge[OF s(1) this s(2) _ lo] show "100000 \<le> double_round ?s" by simp
  have "?s \<le> 1000000 - 1 / 8589934592" using assms(2) by simp
  from double_round_le[OF s(1) this s(2) _ hi] show "double_round ?s < 1000000" by simp
qed

lemma product_round_le:
  assumes "0 \<le> x" "x \<le> 900000"
  shows "double_round x \<le> 900000"
proof (cases "x = 0")
  case True
  then show ?thesis by (simp add: double_round_def)
next
  case False
  with assms have x: "0 < x" "x < pow2 (19 + 1)" unfolding p20 by simp_all
  have c: "(900000::real) = real_of_int 7730941132800000 * pow2 (19 - 52)" unfolding p33 by simp
  from double_round_le[OF x(1) assms(2) x(2) _ c] show ?thesis by simp
qed

lemma product_round_below:
  assumes "0 \<le> x" "x \<le> 900000 - 900000 / 2 ^ 53"
  shows "double_round x \<le> 900000 - 1 / 8589934592"
proof (cases "x \<le> 900000 - 1 / 8589934592")
  case True
  show ?thesis
  proof (cases "x = 0")
    case True
    then show ?thesis by (simp add: double_round_def)
  next
    case False
    with assms have x: "0 < x" "x < pow2 (19 + 1)" unfolding p20 by simp_all
    have c: "(900000 - 1 / 8589934592 :: real) = real_of_int 7730941132799999 * pow2 (19 - 52)"
      unfolding p33 by simp
    from double_round_le[OF x(1) True x(2) _ c] show ?thesis by simp
  qed
next
  case False
  then have lo: "900000 - 1 / 8589934592 < x" by simp
  then have x0: "0 < x" by simp
  have "pow2 19 \<le> x" using lo by (simp add: pow2_def)
  moreover have "x < pow2 (19 + 1)" using assms(2) unfolding p20 by simp
  ultimately have "exponent x = 19"
    using exponent_le[OF x0, of 19] exponent_ge[OF x0, of 19] by simp
  then have u: "ulp x = 1 / 8589934592" by (simp add: ulp_def pow2_def)
  have "x * 8589934592 < real_of_int 7730941132800000 - 1 / 2" using assms(2) by simp
  then have "round_even (x * 8589934592) \<le> 7730941132800000 - 1" by (rule round_even_below_half)
  then have "real_of_int (round_even (x * 8589934592)) \<le> real_of_int (7730941132800000 - 1)"
    by (simp only: of_int_le_iff)
  then show ?thesis unfolding double_round_pos[OF x0] u by simp
qed

lemma otp_number_lower:
  assumes "0 \<le> rnd" "rnd < 1"
  shows "100000 \<le> otp_number rnd"
proof -
  let ?y = "double_round (rnd * 900000)"
  have y0: "0 \<le> ?y" using assms(1) by (intro double_round_nonneg) simp
  have y1: "?y \<le> 900000" using assms by (intro product_round_le) simp_all
  let ?s = "100000 + ?y"
  have s: "0 < ?s" "?s < pow2 (19 + 1)" using y0 y1 unfolding p20 by simp_all
  have lo: "(100000::real) = real_of_int 858993459200000 * pow2 (19 - 52)" unfolding p33 by simp
  have "100000 \<le> ?s" using y0 by simp
  from double_round_ge[OF s(1) this s(2) _ lo] have "100000 \<le> double_round ?s" by simp
  then show ?thesis unfolding otp_number_def by (simp add: le_floor_iff)
qed

lemma otp_number_bounds:
  assumes "0 \<le> rnd" "rnd < 1" "is_double rnd"
  shows "100000 \<le> otp_number rnd" "otp_number rnd \<le> 999999"
proof -
  show "100000 \<le> otp_number rnd" using assms(1,2) by (rule otp_number_lower)
  let ?y = "double_round (rnd * 900000)"
  have r: "rnd \<le> 1 - 1 / 2 ^ 53" using assms(3,1,2) by (rule double_below_one)
  have y0: "0 \<le> ?y" using assms(1) by (intro double_round_nonneg) simp
  have "rnd * 900000 \<le> 900000 - 900000 / 2 ^ 53" using r by simp
  then have y1: "?y \<le> 900000 - 1 / 8589934592" using assms(1) by (intro product_round_below) simp_all
  from sum_round_bounds(2)[OF y0 y1] have "\<lfloor>double_round (100000 + ?y)\<rfloor> < 1000000"
    by (simp add: floor_less_iff)
  then show "otp_number rnd \<le> 999999" unfolding otp_number_def by simp
qed

lemma otp_number_onto:
  assumes "100000 \<le> n" "n \<le> 999999"
  shows "\<exists>rnd. 0 \<le> rnd \<and> rnd < 1 \<and> is_double rnd \<and> otp_number rnd = n"
proof -
  define t :: real where "t = (2 * real_of_int (n - 100000) + 1) / 1800000"
  define k where "k = \<lceil>t * 2 ^ 53\<rceil>"
  define rnd where "rnd = real_of_int k / 2 ^ 53"
  have t: "0 < t" "t \<le> 1 - 1 / 1800000" using assms by (simp_all add: t_def field_simps)
  have k: "t * 2 ^ 53 \<le> real_of_int k" "real_of_int k < t * 2 ^ 53 + 1"
    unfolding k_def by linarith+
  have "0 < t * 2 ^ 53" using t(1) by simp
  then have "0 < real_of_int k" using k(1) by linarith
  then have k0: "0 < k" by simp
  have "real_of_int k < 2 ^ 53" using k(2) t(2) by simp
  then have "real_of_int k < real_of_int (2 ^ 53)" by simp
  then have k1: "k < 2 ^ 53" by (simp only: of_int_less_iff)
  have d: "is_double rnd" unfolding is_double_def rnd_def using k0 k1 by (rule double_round_grid)
  have r: "t \<le> rnd" "rnd < t + 1 / 9007199254740992"
    using k by (simp_all add: rnd_def field_simps)
  have r01: "0 \<le> rnd" "rnd < 1" using r t by simp_all
  let ?a = "real_of_int n - 100000 + 1 / 2"
  have a: "?a = t * 900000" by (simp add: t_def)
  let ?x = "rnd * 900000"
  have x: "?a \<le> ?x" "?x < ?a + 900000 / 9007199254740992" using r unfolding a by simp_all
  have x0: "0 < ?x" "?x < pow2 (19 + 1)" using x assms unfolding p20 by simp_all
  let ?y = "double_round ?x"
  have nr: "100000 \<le> real_of_int n" "real_of_int n \<le> 999999" using assms by simp_all
  have ey: "\<bar>?y - ?x\<bar> \<le> 1 / 17179869184"
    using double_round_error[OF x0] unfolding p34 by simp
  then have yb: "?x - 1 / 17179869184 \<le> ?y" "?y \<le> ?x + 1 / 17179869184"
    unfolding abs_le_iff by linarith+
  let ?s = "100000 + ?y"
  have "0 < ?s" using yb(1) x(1) nr by linarith
  moreover have "?s < 1048576" using yb(2) x(2) nr by linarith
  ultimately have s0: "0 < ?s" "?s < pow2 (19 + 1)" unfolding p20 by simp_all
  let ?z = "double_round ?s"
  have ez: "\<bar>?z - ?s\<bar> \<le> 1 / 17179869184"
    using double_round_error[OF s0] unfolding p34 by simp
  then have zb: "?s - 1 / 17179869184 \<le> ?z" "?z \<le> ?s + 1 / 17179869184"
    unfolding abs_le_iff by linarith+
  have "real_of_int n \<le> ?z" using zb(1) yb(1) x(1) by linarith
  moreover have "?z < real_of_int n + 1" using zb(2) yb(2) x(2) by linarith
  ultimately have "real_of_int n \<le> ?z" "?z < real_of_int n + 1" .
  then have "\<lfloor>?z\<rfloor> = n" by (simp add: floor_eq_iff)
  then have "otp_number rnd = n" by (simp add: otp_number_def)
  with r01 d show ?thesis by blast
qed

lemma generate_otp_number: "generate_otp rnd = number_toString (otp_number rnd)"
  by (simp add: generate_otp_def otp_number_def)

lemma generate_otp_digits:
  assumes "0 \<le> rnd" "rnd < 1"
  shows "generate_otp rnd = digits (nat (otp_number rnd))"
  using otp_number_lower[OF assms] by (simp add: generate_otp_number number_toString_def)

text \<open>
  The rounding decides the digit: at these two doubles the number computed is one more
  than \<open>\<lfloor>100000 + rnd * 900000\<rfloor>\<close> taken exactly.
\<close>

lemmas double_eval = otp_number_def double_round_def ulp_def exponent_def ilog2.simps pow2_def
  round_even_def Let_def

lemma otp_number_rounded_up:
  "otp_number (9007039126754241 / 9007199254740992) = 999984"
  "\<lfloor>100000 + 9007039126754241 / 9007199254740992 * (900000::real)\<rfloor> = 999983"
  "otp_number (79828805394935 / 4503599627370496) = 115953"
  "\<lfloor>100000 + 79828805394935 / 4503599627370496 * (900000::real)\<rfloor> = 115952"
  "is_double (9007039126754241 / 9007199254740992)"
  "is_double (79828805394935 / 4503599627370496)"
  by (simp_all add: is_double_def double_eval)

section \<open>The sample runs\<close>

lemma wrong_calls_run:
  "verify_seq [sample_row] sample_phone wrong_calls
     = (map invalid_otp [4, 3, 2, 1, 0], [sample_row\<lparr>attempts := 5\<rparr>])"
  by (simp add: wrong_calls_def verify_otp_def sample_row_def sample_phone_def
      increment_attempts_def invalid_otp_def)

lemma sample_create:
  "create_otp_entry [] 0 41 sample_phone ''482913'' 5 None = Inr (41, [sample_row])"
  by (simp add: create_otp_entry_def delete_phone_def insert_row_def sample_row_def)

lemma sample_first_verify:
  "verify_otp [sample_row] 1000000 sample_phone ''000000''
     = (\<lparr>success = False, message = ''Invalid OTP code'', remaining_attempts = 4\<rparr>,
        [sample_row\<lparr>attempts := 1\<rparr>])"
  by (simp add: verify_otp_def sample_row_def increment_attempts_def)

lemma sample_second_verify:
  "verify_otp [sample_row\<lparr>attempts := 1\<rparr>] 2000000 sample_phone ''482913''
     = (\<lparr>success = True, message = ''OTP verified successfully'', remaining_attempts = 3\<rparr>, [])"
  by (simp add: verify_otp_def sample_row_def increment_attempts_def delete_id_def)

lemma sample_handler_run:
  "verify_otp_handler (sample_verify_env [sample_row] 1000000) sample_verify_request
     = ((200, VerifySuccess True ''OTP verified successfully'' (Session 7)), [],
        [sample_account\<lparr>password := Some ''k3j9x0qap7m2w5ztAa1!''\<rparr>])"
  by (simp add: verify_otp_handler_def sample_verify_env_def sample_verify_request_def
      verify_otp_def sample_row_def sample_phone_def increment_attempts_def delete_id_def
      mintSession_def sample_account_def updateUserById_def signInWithPassword_def
      tempPassword_def)

lemma sample_code: "generate_otp (1 / 2) = ''550000''"
proof -
  have "otp_number (1 / 2) = 550000" by (simp add: double_eval)
  then show ?thesis by (simp add: generate_otp_number number_toString_def digit_char_def)
qed

section \<open>The claims\<close>

text \<open>
  C1. Single active OTP. Whatever table a sequence of \<open>create_otp_entry\<close> calls has
  left, a further call that returns has deleted every row of its phone, verified or
  not, has left the rows of other phones alone, and has inserted exactly one row, so
  exactly one record, a non-consumed one, exists for the phone. Started from a table
  that meets its \<open>unique_active_otp\<close> constraint, every phone has at most one
  non-consumed record after each call of the sequence, also after one that raised.
\<close>

theorem create_otp_entry_single_active:
  "(run_create (issues tbl0 cs) c = Inr (i, tbl') \<longrightarrow>
      issues tbl0 (cs @ [c]) = tbl'
      \<and> filter (\<lambda>r. phone_number r = call_phone c) tbl' = [new_row c]
      \<and> filter (\<lambda>r. phone_number r \<noteq> call_phone c) tbl'
          = filter (\<lambda>r. phone_number r \<noteq> call_phone c) (issues tbl0 cs)
      \<and> length (filter (\<lambda>r. phone_number r = call_phone c \<and> verified r = False) tbl') = 1)
   \<and> (unique_active_otp tbl0 \<longrightarrow>
        (\<forall>p. length (filter (\<lambda>r. phone_number r = p \<and> verified r = False)
                (issues tbl0 (cs @ [c]))) \<le> 1))"
proof (intro conjI impI)
  assume ok: "run_create (issues tbl0 cs) c = Inr (i, tbl')"
  show "issues tbl0 (cs @ [c]) = tbl'"
    using ok by (simp add: issues_def issue_def)
  have t': "tbl' = delete_phone (issues tbl0 cs) (call_phone c) @ [new_row c]"
    using create_otp_entry_Inr(2)[OF ok[unfolded run_create_def]] by (simp add: new_row_def)
  show "filter (\<lambda>r. phone_number r = call_phone c) tbl' = [new_row c]"
    unfolding t' by (simp add: delete_phone_def new_row_def)
  show "filter (\<lambda>r. phone_number r \<noteq> call_phone c) tbl'
          = filter (\<lambda>r. phone_number r \<noteq> call_phone c) (issues tbl0 cs)"
    unfolding t' by (simp add: delete_phone_def new_row_def)
  show "length (filter (\<lambda>r. phone_number r = call_phone c \<and> verified r = False) tbl') = 1"
    unfolding t' by (simp add: delete_phone_def new_row_def)
next
  assume "unique_active_otp tbl0"
  then have "unique_active_otp (issues tbl0 (cs @ [c]))" by (rule unique_active_issues)
  then show "\<forall>p. length (filter (\<lambda>r. phone_number r = p \<and> verified r = False)
                (issues tbl0 (cs @ [c]))) \<le> 1"
    using unique_active_live_le1 by blast
qed

theorem create_otp_entry_single_active_witness:
  "run_create (issues [] [sample_call 1 ''111111'']) (sample_call 2 ''482913'')
     = Inr (2, [new_row (sample_call 2 ''482913'')])
   \<and> unique_active_otp []
   \<and> issues [] ([sample_call 1 ''111111''] @ [sample_call 2 ''482913''])
       = [new_row (sample_call 2 ''482913'')]
   \<and> filter (\<lambda>r. phone_number r = sample_phone) [new_row (sample_call 2 ''482913'')]
       = [new_row (sample_call 2 ''482913'')]
   \<and> (\<forall>p. length (filter (\<lambda>r. phone_number r = p \<and> verified r = False)
                (issues [] ([sample_call 1 ''111111''] @ [sample_call 2 ''482913'']))) \<le> 1)"
proof -
  have h1: "run_create (issues [] [sample_call 1 ''111111'']) (sample_call 2 ''482913'')
     = Inr (2, [new_row (sample_call 2 ''482913'')])"
    by (simp add: run_create_def issues_def issue_def create_otp_entry_def delete_phone_def
        insert_row_def sample_call_def new_row_def)
  have h2: "unique_active_otp []" by (simp add: unique_active_otp_def)
  have p: "call_phone (sample_call 2 ''482913'') = sample_phone" by (simp add: sample_call_def)
  from create_otp_entry_single_active[of "[]" "[sample_call 1 ''111111'']"
      "sample_call 2 ''482913''" 2 "[new_row (sample_call 2 ''482913'')]"] h1 h2 p
  show ?thesis by simp
qed

text \<open>
  C2. For a phone with a live record, what \<open>verify_otp\<close> does is fixed by the record,
  the time and the code. After \<open>expires_at\<close> it answers "OTP has expired", and with 5 or
  more attempts "Maximum verification attempts exceeded", both with 0 remaining
  attempts; with a matching code it answers success; in these three cases the table is
  left without the record and otherwise as it was. On a mismatch before expiry with
  fewer than 5 attempts it answers "Invalid OTP code" and the table is as it was, except
  that the record has one more attempt. So the record is deleted exactly on the three
  terminal outcomes, and a replay after a success finds no OTP.
\<close>

theorem verify_otp_deletes_on_terminal:
  assumes "table_ok tbl" "r \<in> set tbl" "phone_number r = p" "verified r = False"
    and "verify_otp tbl now p code = (res, tbl')"
  shows "(expires_at r < now \<longrightarrow>
            res = \<lparr>success = False, message = ''OTP has expired'', remaining_attempts = 0\<rparr>
            \<and> tbl' = filter (\<lambda>x. x \<noteq> r) tbl)
       \<and> (\<not> expires_at r < now \<and> 5 \<le> attempts r \<longrightarrow>
            res = \<lparr>success = False, message = ''Maximum verification attempts exceeded'',
                   remaining_attempts = 0\<rparr>
            \<and> tbl' = filter (\<lambda>x. x \<noteq> r) tbl)
       \<and> (\<not> expires_at r < now \<and> attempts r < 5 \<and> otp_code r = code \<longrightarrow>
            res = \<lparr>success = True, message = ''OTP verified successfully'',
                   remaining_attempts = 4 - attempts r\<rparr>
            \<and> tbl' = filter (\<lambda>x. x \<noteq> r) tbl)
       \<and> (\<not> expires_at r < now \<and> attempts r < 5 \<and> otp_code r \<noteq> code \<longrightarrow>
            res = \<lparr>success = False, message = ''Invalid OTP code'',
                   remaining_attempts = 4 - attempts r\<rparr>
            \<and> tbl' = map (\<lambda>x. if x = r then r\<lparr>attempts := attempts r + 1\<rparr> else x) tbl
            \<and> r\<lparr>attempts := attempts r + 1\<rparr> \<in> set tbl'
            \<and> otp_id r \<in> otp_id ` set tbl')
       \<and> ((otp_id r \<notin> otp_id ` set tbl') =
            (success res \<or> message res = ''OTP has expired''
              \<or> message res = ''Maximum verification attempts exceeded''))
       \<and> ((otp_id r \<notin> otp_id ` set tbl') =
            (expires_at r < now \<or> 5 \<le> attempts r \<or> otp_code r = code))
       \<and> ((r\<lparr>attempts := attempts r + 1\<rparr> \<in> set tbl') = (message res = ''Invalid OTP code''))
       \<and> (success res = (\<not> expires_at r < now \<and> attempts r < 5 \<and> otp_code r = code))
       \<and> (success res \<longrightarrow> (\<forall>now'. verify_otp tbl' now' p code = (no_otp_found, tbl')))"
proof -
  have live: "live_record tbl p r" using assms(1-4) by (rule table_ok_live_record)
  note v = assms(5)[unfolded verify_otp_live[OF live]]
  note del = live_delete_id_eq[OF live]
  note inc_eq = live_increment_eq[OF live]
  have gone: "filter (\<lambda>x. phone_number x = p \<and> verified x = False) (delete_id tbl (otp_id r)) = []"
    using live by (rule live_after_delete)
  have inc: "live_record (increment_attempts tbl (otp_id r)) p (r\<lparr>attempts := attempts r + 1\<rparr>)"
    using live by (rule live_after_increment)
  have kept: "r\<lparr>attempts := attempts r + 1\<rparr> \<in> set (increment_attempts tbl (otp_id r))"
    using inc by (rule row_in_live)
  have kept_id: "otp_id r \<in> otp_id ` set (increment_attempts tbl (otp_id r))"
    using imageI[OF kept, of otp_id] by simp
  have notin: "r\<lparr>attempts := attempts r + 1\<rparr> \<notin> set (delete_id tbl (otp_id r))"
    by (auto simp: delete_id_def)
  consider (terminal) "expires_at r < now \<or> attempts r \<ge> 5 \<or> otp_code r = code"
    | (miss) "\<not> expires_at r < now" "attempts r < 5" "otp_code r \<noteq> code" by linarith
  then show ?thesis
  proof cases
    case terminal
    then have t: "tbl' = delete_id tbl (otp_id r)" using v by (auto split: if_splits)
    have t2: "tbl' = filter (\<lambda>x. x \<noteq> r) tbl" using t del by simp
    have g: "otp_id r \<notin> otp_id ` set tbl'" unfolding t by (rule id_gone_after_delete)
    have n: "r\<lparr>attempts := attempts r + 1\<rparr> \<notin> set tbl'" unfolding t by (rule notin)
    have rep: "\<forall>now'. verify_otp tbl' now' p code = (no_otp_found, tbl')"
      unfolding t using verify_otp_none[OF gone] by simp
    have res: "res = (if expires_at r < now
                 then \<lparr>success = False, message = ''OTP has expired'', remaining_attempts = 0\<rparr>
               else if 5 \<le> attempts r
                 then \<lparr>success = False, message = ''Maximum verification attempts exceeded'',
                        remaining_attempts = 0\<rparr>
               else \<lparr>success = True, message = ''OTP verified successfully'',
                      remaining_attempts = 4 - attempts r\<rparr>)"
      using v terminal by (auto split: if_splits)
    show ?thesis
      using terminal t2 g n rep unfolding res by auto
  next
    case miss
    then have t: "tbl' = increment_attempts tbl (otp_id r)" using v by (auto split: if_splits)
    have t2: "tbl' = map (\<lambda>x. if x = r then r\<lparr>attempts := attempts r + 1\<rparr> else x) tbl"
      using t inc_eq by simp
    have k: "r\<lparr>attempts := attempts r + 1\<rparr> \<in> set tbl'" unfolding t by (rule kept)
    have ki: "otp_id r \<in> otp_id ` set tbl'" unfolding t by (rule kept_id)
    have res: "res = \<lparr>success = False, message = ''Invalid OTP code'',
                   remaining_attempts = 4 - attempts r\<rparr>"
      using v miss by (auto split: if_splits)
    show ?thesis
      using miss t2 k ki unfolding res by auto
  qed
qed

theorem verify_otp_deletes_on_terminal_witness:
  "table_ok [sample_row] \<and> sample_row \<in> set [sample_row]
   \<and> phone_number sample_row = sample_phone \<and> verified sample_row = False
   \<and> verify_otp [sample_row] 1000000 sample_phone ''482913''
       = (\<lparr>success = True, message = ''OTP verified successfully'', remaining_attempts = 4\<rparr>, [])
   \<and> otp_id sample_row \<notin> otp_id ` set []
   \<and> (\<forall>now'. verify_otp [] now' sample_phone ''482913'' = (no_otp_found, []))
   \<and> verify_otp [sample_row] 1000000 sample_phone ''000000''
       = (\<lparr>success = False, message = ''Invalid OTP code'', remaining_attempts = 4\<rparr>,
          [sample_row\<lparr>attempts := 1\<rparr>])
   \<and> otp_id sample_row \<in> otp_id ` set [sample_row\<lparr>attempts := 1\<rparr>]
   \<and> verify_otp [sample_row] 300000001 sample_phone ''482913''
       = (\<lparr>success = False, message = ''OTP has expired'', remaining_attempts = 0\<rparr>, [])"
proof -
  have h1: "table_ok [sample_row]"
    by (simp add: table_ok_def primary_key_ok_def unique_active_otp_def)
  have h2: "sample_row \<in> set [sample_row]" by simp
  have h3: "phone_number sample_row = sample_phone" by (simp add: sample_row_def)
  have h4: "verified sample_row = False" by (simp add: sample_row_def)
  have h5: "verify_otp [sample_row] 1000000 sample_phone ''482913''
       = (\<lparr>success = True, message = ''OTP verified successfully'', remaining_attempts = 4\<rparr>, [])"
    by (simp add: verify_otp_def sample_row_def delete_id_def increment_attempts_def)
  have a: "otp_id sample_row \<notin> otp_id ` set []
       \<and> (\<forall>now'. verify_otp [] now' sample_phone ''482913'' = (no_otp_found, []))"
    using verify_otp_deletes_on_terminal[OF h1 h2 h3 h4 h5] by simp
  obtain res2 tbl2 where v2: "verify_otp [sample_row] 1000000 sample_phone ''000000'' = (res2, tbl2)"
    by (cases "verify_otp [sample_row] 1000000 sample_phone ''000000''")
  have c2: "\<not> expires_at sample_row < 1000000 \<and> attempts sample_row < 5
       \<and> otp_code sample_row \<noteq> ''000000''"
    by (simp add: sample_row_def)
  have b: "verify_otp [sample_row] 1000000 sample_phone ''000000''
       = (\<lparr>success = False, message = ''Invalid OTP code'', remaining_attempts = 4\<rparr>,
          [sample_row\<lparr>attempts := 1\<rparr>])
       \<and> otp_id sample_row \<in> otp_id ` set [sample_row\<lparr>attempts := 1\<rparr>]"
    using verify_otp_deletes_on_terminal[OF h1 h2 h3 h4 v2] c2 v2
    by (simp add: sample_row_def)
  obtain res3 tbl3 where v3: "verify_otp [sample_row] 300000001 sample_phone ''482913'' = (res3, tbl3)"
    by (cases "verify_otp [sample_row] 300000001 sample_phone ''482913''")
  have c3: "expires_at sample_row < 300000001" by (simp add: sample_row_def)
  have c: "verify_otp [sample_row] 300000001 sample_phone ''482913''
       = (\<lparr>success = False, message = ''OTP has expired'', remaining_attempts = 0\<rparr>, [])"
    using verify_otp_deletes_on_terminal[OF h1 h2 h3 h4 v3] c3 v3 by simp
  from h1 h2 h3 h4 h5 a b c show ?thesis by simp
qed

text \<open>
  C3. Attempt exhaustion, as the code has it. For a live record with no attempts and
  five consecutive calls with wrong codes before expiry, the calls return "Invalid OTP
  code" with 4, 3, 2, 1 and 0 remaining attempts, and the record is still stored after
  the fifth, with 5 attempts. A sixth call before expiry, with any code, returns
  "Maximum verification attempts exceeded" with 0 remaining attempts and deletes the
  record; a seventh finds no OTP.
\<close>

theorem verify_otp_attempt_exhaustion:
  assumes "table_ok tbl" "r \<in> set tbl" "phone_number r = p" "verified r = False"
    and "attempts r = 0"
    and "length calls = 5"
    and "\<forall>(n, c) \<in> set calls. \<not> expires_at r < n \<and> c \<noteq> otp_code r"
  shows "\<exists>tbl5. verify_seq tbl p calls = (map invalid_otp [4, 3, 2, 1, 0], tbl5)
          \<and> r\<lparr>attempts := 5\<rparr> \<in> set tbl5
          \<and> (\<forall>n6 c6. \<not> expires_at r < n6 \<longrightarrow>
                (\<exists>tbl6. verify_otp tbl5 n6 p c6 =
                   (\<lparr>success = False, message = ''Maximum verification attempts exceeded'',
                     remaining_attempts = 0\<rparr>, tbl6)
                  \<and> otp_id r \<notin> otp_id ` set tbl6
                  \<and> (\<forall>n7 c7. verify_otp tbl6 n7 p c7 = (no_otp_found, tbl6))))"
proof -
  have live: "live_record tbl p r" using assms(1-4) by (rule table_ok_live_record)
  have "attempts r + int (length calls) \<le> 5" using assms(5,6) by simp
  from verify_seq_wrong[OF live this assms(7)]
  obtain tbl5 where run: "verify_seq tbl p calls =
            (map (\<lambda>k. invalid_otp (4 - attempts r - int k)) [0..<length calls], tbl5)"
    and l5: "live_record tbl5 p (r\<lparr>attempts := attempts r + int (length calls)\<rparr>)"
    by blast
  have r5: "r\<lparr>attempts := attempts r + int (length calls)\<rparr> = r\<lparr>attempts := 5\<rparr>"
    using assms(5,6) by simp
  have l5': "live_record tbl5 p (r\<lparr>attempts := 5\<rparr>)" using l5 unfolding r5 .
  have "[0..<length calls] = [0, 1, 2, 3, 4]"
    unfolding assms(6) by (simp add: upt_rec)
  then have run': "verify_seq tbl p calls = (map invalid_otp [4, 3, 2, 1, 0], tbl5)"
    using run assms(5) by simp
  have gone: "filter (\<lambda>x. phone_number x = p \<and> verified x = False)
                 (delete_id tbl5 (otp_id (r\<lparr>attempts := 5\<rparr>))) = []"
    using l5' by (rule live_after_delete)
  have sixth: "\<forall>n6 c6. \<not> expires_at r < n6 \<longrightarrow>
                (\<exists>tbl6. verify_otp tbl5 n6 p c6 =
                   (\<lparr>success = False, message = ''Maximum verification attempts exceeded'',
                     remaining_attempts = 0\<rparr>, tbl6)
                  \<and> otp_id r \<notin> otp_id ` set tbl6
                  \<and> (\<forall>n7 c7. verify_otp tbl6 n7 p c7 = (no_otp_found, tbl6)))"
    using verify_otp_live[OF l5'] id_gone_after_delete[of "r\<lparr>attempts := 5\<rparr>" tbl5]
      verify_otp_none[OF gone]
    by simp
  from run' row_in_live[OF l5'] sixth show ?thesis by blast
qed

theorem verify_otp_attempt_exhaustion_witness:
  "table_ok [sample_row] \<and> sample_row \<in> set [sample_row]
   \<and> phone_number sample_row = sample_phone \<and> verified sample_row = False
   \<and> attempts sample_row = 0 \<and> length wrong_calls = 5
   \<and> list_all (\<lambda>(n, c). \<not> expires_at sample_row < n \<and> c \<noteq> otp_code sample_row) wrong_calls
   \<and> (\<exists>tbl5. verify_seq [sample_row] sample_phone wrong_calls
                 = (map invalid_otp [4, 3, 2, 1, 0], tbl5)
          \<and> sample_row\<lparr>attempts := 5\<rparr> \<in> set tbl5
          \<and> (\<exists>tbl6. verify_otp tbl5 6000000 sample_phone ''555555'' =
                   (\<lparr>success = False, message = ''Maximum verification attempts exceeded'',
                     remaining_attempts = 0\<rparr>, tbl6)
                  \<and> otp_id sample_row \<notin> otp_id ` set tbl6
                  \<and> verify_otp tbl6 7000000 sample_phone ''482913'' = (no_otp_found, tbl6)))"
proof -
  have h1: "table_ok [sample_row]"
    by (simp add: table_ok_def primary_key_ok_def unique_active_otp_def)
  have h2: "sample_row \<in> set [sample_row]" by simp
  have h3: "phone_number sample_row = sample_phone" by (simp add: sample_row_def)
  have h4: "verified sample_row = False" by (simp add: sample_row_def)
  have h5: "attempts sample_row = 0" by (simp add: sample_row_def)
  have h6: "length wrong_calls = 5" by (simp add: wrong_calls_def)
  have h7: "list_all (\<lambda>(n, c). \<not> expires_at sample_row < n \<and> c \<noteq> otp_code sample_row) wrong_calls"
    by (simp add: wrong_calls_def sample_row_def)
  then have h7': "\<forall>(n, c) \<in> set wrong_calls. \<not> expires_at sample_row < n \<and> c \<noteq> otp_code sample_row"
    by (simp add: list_all_iff)
  have h8: "\<not> expires_at sample_row < 6000000" by (simp add: sample_row_def)
  from verify_otp_attempt_exhaustion[OF h1 h2 h3 h4 h5 h6 h7'] h8
  have "\<exists>tbl5. verify_seq [sample_row] sample_phone wrong_calls
                 = (map invalid_otp [4, 3, 2, 1, 0], tbl5)
          \<and> sample_row\<lparr>attempts := 5\<rparr> \<in> set tbl5
          \<and> (\<exists>tbl6. verify_otp tbl5 6000000 sample_phone ''555555'' =
                   (\<lparr>success = False, message = ''Maximum verification attempts exceeded'',
                     remaining_attempts = 0\<rparr>, tbl6)
                  \<and> otp_id sample_row \<notin> otp_id ` set tbl6
                  \<and> verify_otp tbl6 7000000 sample_phone ''482913'' = (no_otp_found, tbl6))"
    by blast
  with h1 h2 h3 h4 h5 h6 h7 show ?thesis by blast
qed

text \<open>
  On the sample row the fifth wrong call does not delete the record and the sixth call
  does not report "No OTP found": the three parts of C3 as the specification words it
  do not hold together.
\<close>

theorem attempt_exhaustion_counterexample:
  "\<not> (map remaining_attempts (fst (verify_seq [sample_row] sample_phone wrong_calls))
         = [4, 3, 2, 1, 0]
       \<and> otp_id sample_row \<notin> otp_id ` set (snd (verify_seq [sample_row] sample_phone wrong_calls))
       \<and> fst (verify_otp (snd (verify_seq [sample_row] sample_phone wrong_calls))
              6000000 sample_phone ''555555'') = no_otp_found)"
  by (simp add: wrong_calls_run)

text \<open>
  C4. The concrete scenario, as the code has it. After \<open>create_otp_entry\<close> has stored
  code "482913" for the sample phone with a 5 minute expiry, a verify with "000000"
  before expiry returns failure, "Invalid OTP code", 4 remaining attempts; a following
  verify with "482913" before expiry returns success with 3 remaining attempts, since
  the successful call is counted too; and the handler, when the directory has an
  account of the phone and no call fails, answers 200 with a session bound to that
  account.
\<close>

theorem concrete_scenario:
  assumes "create_otp_entry tbl t0 u sample_phone ''482913'' 5 ip = Inr (i, tbl1)"
    and "t1 \<le> t0 + 300000000" "t2 \<le> t0 + 300000000"
    and "verify_otp tbl1 t1 sample_phone ''000000'' = (res1, tbl2)"
    and "verify_otp tbl2 t2 sample_phone ''482913'' = (res2, tbl3)"
    and "verify_db env = tbl2" "verify_now env = t2"
    and "\<not> verify_rpc_fails env" "\<not> listUsers_fails env" "\<not> updateUser_fails env"
    and "\<not> signIn_fails env"
    and "find (\<lambda>a. phone a = sample_phone) (users env) = Some account"
  shows "res1 = \<lparr>success = False, message = ''Invalid OTP code'', remaining_attempts = 4\<rparr>
       \<and> res2 = \<lparr>success = True, message = ''OTP verified successfully'',
                 remaining_attempts = 3\<rparr>
       \<and> fst (verify_otp_handler env
                \<lparr>verify_method = ''POST'', verify_phoneNumber = Some sample_phone,
                 verify_otp_field = Some ''482913''\<rparr>)
           = (200, VerifySuccess True ''OTP verified successfully'' (Session (user_id account)))"
proof -
  let ?row = "\<lparr>otp_id = u, phone_number = sample_phone,
                     otp_code = ''482913'', created_at = t0,
                     expires_at = t0 + 5 * 60000000,
                     attempts = 0, verified = False, request_ip = ip\<rparr>"
  have live1: "live_record tbl1 sample_phone ?row" using assms(1) by (rule create_otp_entry_live)
  have r1: "res1 = \<lparr>success = False, message = ''Invalid OTP code'', remaining_attempts = 4\<rparr>"
    and t2: "tbl2 = increment_attempts tbl1 (otp_id ?row)"
    using assms(4) assms(2) unfolding verify_otp_live[OF live1] by simp_all
  have live2: "live_record tbl2 sample_phone (?row\<lparr>attempts := attempts ?row + 1\<rparr>)"
    unfolding t2 using live1 by (rule live_after_increment)
  have r2: "res2 = \<lparr>success = True, message = ''OTP verified successfully'',
                 remaining_attempts = 3\<rparr>"
    using assms(5) assms(3) unfolding verify_otp_live[OF live2] by simp
  have ne: "sample_phone \<noteq> []" by (simp add: sample_phone_def)
  have "fst (verify_otp_handler env
                \<lparr>verify_method = ''POST'', verify_phoneNumber = Some sample_phone,
                 verify_otp_field = Some ''482913''\<rparr>)
           = (200, VerifySuccess True ''OTP verified successfully'' (Session (user_id account)))"
    using assms(5-8) r2 ne mintSession_existing[OF assms(12) assms(9) assms(10) assms(11)]
    by (simp add: verify_otp_handler_def)
  with r1 r2 show ?thesis by simp
qed

theorem concrete_scenario_witness:
  "create_otp_entry [] 0 41 sample_phone ''482913'' 5 None = Inr (41, [sample_row])
   \<and> (1000000::int) \<le> 0 + 300000000 \<and> (2000000::int) \<le> 0 + 300000000
   \<and> verify_otp [sample_row] 1000000 sample_phone ''000000''
       = (\<lparr>success = False, message = ''Invalid OTP code'', remaining_attempts = 4\<rparr>,
          [sample_row\<lparr>attempts := 1\<rparr>])
   \<and> verify_otp [sample_row\<lparr>attempts := 1\<rparr>] 2000000 sample_phone ''482913''
       = (\<lparr>success = True, message = ''OTP verified successfully'', remaining_attempts = 3\<rparr>, [])
   \<and> find (\<lambda>a. phone a = sample_phone)
        (users (sample_verify_env [sample_row\<lparr>attempts := 1\<rparr>] 2000000)) = Some sample_account
   \<and> fst (verify_otp_handler (sample_verify_env [sample_row\<lparr>attempts := 1\<rparr>] 2000000)
            sample_verify_request)
       = (200, VerifySuccess True ''OTP verified successfully'' (Session 7))"
proof -
  let ?env = "sample_verify_env [sample_row\<lparr>attempts := 1\<rparr>] 2000000"
  have h2: "(1000000::int) \<le> 0 + 300000000" and h3: "(2000000::int) \<le> 0 + 300000000" by simp_all
  have e: "verify_db ?env = [sample_row\<lparr>attempts := 1\<rparr>]" "verify_now ?env = 2000000"
    "\<not> verify_rpc_fails ?env" "\<not> listUsers_fails ?env" "\<not> updateUser_fails ?env"
    "\<not> signIn_fails ?env"
    by (simp_all add: sample_verify_env_def)
  have f: "find (\<lambda>a. phone a = sample_phone) (users ?env) = Some sample_account"
    by (simp add: sample_verify_env_def sample_account_def)
  have u: "user_id sample_account = 7" by (simp add: sample_account_def)
  from concrete_scenario[OF sample_create h2 h3 sample_first_verify sample_second_verify
      e(1) e(2) e(3) e(4) e(5) e(6) f]
  have "fst (verify_otp_handler ?env sample_verify_request)
       = (200, VerifySuccess True ''OTP verified successfully'' (Session 7))"
    by (simp add: sample_verify_request_def u)
  with sample_create h2 h3 sample_first_verify sample_second_verify f show ?thesis by blast
qed

text \<open>
  In the scenario run from the empty table, the second verify does not return 4
  remaining attempts.
\<close>

theorem concrete_scenario_counterexample:
  "create_otp_entry [] 0 41 sample_phone ''482913'' 5 None = Inr (41, [sample_row])
   \<and> fst (verify_otp [sample_row] 1000000 sample_phone ''000000'')
       = \<lparr>success = False, message = ''Invalid OTP code'', remaining_attempts = 4\<rparr>
   \<and> snd (verify_otp [sample_row] 1000000 sample_phone ''000000'') = [sample_row\<lparr>attempts := 1\<rparr>]
   \<and> remaining_attempts (fst (verify_otp [sample_row\<lparr>attempts := 1\<rparr>] 2000000 sample_phone ''482913''))
       \<noteq> 4"
  by (simp add: sample_create sample_first_verify sample_second_verify)

text \<open>
  C5. The generated code, as the code has it. For every double in [0, 1) that
  \<open>Math.random()\<close> may return, the code is the decimal string of a number from 100000 to
  999999: six digits, the first never 0. Every such string is generated under some
  such double.
\<close>

theorem generate_otp_range:
  "(0 \<le> rnd \<and> rnd < 1 \<and> is_double rnd \<longrightarrow>
      (\<exists>n. 100000 \<le> n \<and> n \<le> 999999 \<and> generate_otp rnd = number_toString n)
      \<and> length (generate_otp rnd) = 6
      \<and> list_all is_digit (generate_otp rnd)
      \<and> hd (generate_otp rnd) \<noteq> CHR ''0'')
   \<and> (100000 \<le> n \<and> n \<le> 999999 \<longrightarrow>
        (\<exists>rnd. 0 \<le> rnd \<and> rnd < 1 \<and> is_double rnd \<and> generate_otp rnd = number_toString n))"
proof (intro conjI impI)
  assume a: "0 \<le> rnd \<and> rnd < 1 \<and> is_double rnd"
  then have r: "0 \<le> rnd" "rnd < 1" and d: "is_double rnd" by simp_all
  note b = otp_number_bounds[OF r d]
  have g: "generate_otp rnd = digits (nat (otp_number rnd))" using r by (rule generate_otp_digits)
  from b generate_otp_number[of rnd]
  show "\<exists>n. 100000 \<le> n \<and> n \<le> 999999 \<and> generate_otp rnd = number_toString n" by blast
  have nb: "100000 \<le> nat (otp_number rnd)" "nat (otp_number rnd) \<le> 999999" using b by simp_all
  show "length (generate_otp rnd) = 6" unfolding g using nb by (rule digits_length_six)
  show "list_all is_digit (generate_otp rnd)" unfolding g by (rule digits_all_digit)
  have "0 < nat (otp_number rnd)" using nb by simp
  then show "hd (generate_otp rnd) \<noteq> CHR ''0''" unfolding g by (rule digits_hd_nonzero)
next
  assume n: "100000 \<le> n \<and> n \<le> 999999"
  then obtain rnd where "0 \<le> rnd" "rnd < 1" "is_double rnd" "otp_number rnd = n"
    using otp_number_onto[of n] by blast
  then have "0 \<le> rnd \<and> rnd < 1 \<and> is_double rnd \<and> generate_otp rnd = number_toString n"
    by (simp add: generate_otp_number)
  then show "\<exists>rnd. 0 \<le> rnd \<and> rnd < 1 \<and> is_double rnd \<and> generate_otp rnd = number_toString n"
    by blast
qed

theorem generate_otp_range_witness:
  "(0::real) \<le> 1 / 2 \<and> (1 / 2 :: real) < 1 \<and> is_double (1 / 2)
   \<and> (\<exists>n. 100000 \<le> n \<and> n \<le> 999999 \<and> generate_otp (1 / 2) = number_toString n)
   \<and> length (generate_otp (1 / 2)) = 6
   \<and> hd (generate_otp (1 / 2)) \<noteq> CHR ''0''
   \<and> (100000::int) \<le> 550000 \<and> (550000::int) \<le> 999999
   \<and> (\<exists>rnd. 0 \<le> rnd \<and> rnd < 1 \<and> is_double rnd \<and> generate_otp rnd = number_toString 550000)"
proof -
  have d: "is_double (1 / 2)" by (simp add: is_double_def double_eval)
  have h1: "(0::real) \<le> 1 / 2 \<and> (1 / 2 :: real) < 1 \<and> is_double (1 / 2)" using d by simp
  have h2: "(100000::int) \<le> 550000 \<and> (550000::int) \<le> 999999" by simp
  from generate_otp_range[of "1 / 2" 550000] h1 h2 show ?thesis by blast
qed

text \<open>
  No number in [0, 1), double or not, makes the issuer generate "000000".
\<close>

theorem generate_otp_leading_zero_counterexample:
  "\<not> (\<exists>rnd. 0 \<le> rnd \<and> rnd < 1 \<and> generate_otp rnd = ''000000'')"
proof
  assume "\<exists>rnd. 0 \<le> rnd \<and> rnd < 1 \<and> generate_otp rnd = ''000000''"
  then obtain rnd where r: "0 \<le> rnd" "rnd < 1" and g: "generate_otp rnd = ''000000''" by blast
  have "0 < nat (otp_number rnd)" using otp_number_lower[OF r] by simp
  then have "hd (generate_otp rnd) \<noteq> CHR ''0''"
    unfolding generate_otp_digits[OF r] by (rule digits_hd_nonzero)
  with g show False by simp
qed

text \<open>
  C6. The temporary password, as the code has it. After every run of the handler that
  answers 200 with a session, the temporary password of that run is still the password
  of the account: signing in with it again succeeds and yields a session of the same
  account. The handler never removes it.
\<close>

theorem temp_password_persists:
  assumes "verify_otp_handler env req = ((200, VerifySuccess b m s), db', dir')"
    and "verify_phoneNumber req = Some ph"
  shows "signInWithPassword dir' ph (tempPassword env) = Inr s
       \<and> (\<exists>a. find (\<lambda>u. phone u = ph) dir' = Some a
               \<and> password a = Some (tempPassword env) \<and> s = Session (user_id a))"
proof -
  have "mintSession env ph = ((200, VerifySuccess b m s), dir')"
    using assms
    by (auto simp: verify_otp_handler_def Let_def
        split: if_splits option.splits prod.splits)
  then have s: "signInWithPassword dir' ph (tempPassword env) = Inr s"
    by (rule mintSession_success)
  then have "\<exists>a. find (\<lambda>u. phone u = ph) dir' = Some a
               \<and> password a = Some (tempPassword env) \<and> s = Session (user_id a)"
    by (auto simp: signInWithPassword_def split: option.splits if_splits)
  with s show ?thesis by simp
qed

theorem temp_password_persists_witness:
  "verify_otp_handler (sample_verify_env [sample_row] 1000000) sample_verify_request
     = ((200, VerifySuccess True ''OTP verified successfully'' (Session 7)), [],
        [sample_account\<lparr>password := Some ''k3j9x0qap7m2w5ztAa1!''\<rparr>])
   \<and> verify_phoneNumber sample_verify_request = Some sample_phone
   \<and> signInWithPassword [sample_account\<lparr>password := Some ''k3j9x0qap7m2w5ztAa1!''\<rparr>]
        sample_phone (tempPassword (sample_verify_env [sample_row] 1000000)) = Inr (Session 7)"
proof -
  have h2: "verify_phoneNumber sample_verify_request = Some sample_phone"
    by (simp add: sample_verify_request_def)
  from temp_password_persists[OF sample_handler_run h2] sample_handler_run h2 show ?thesis by blast
qed

text \<open>
  On the sample run the handler returns a session for account 7, and the temporary
  password then signs in to account 7 once more.
\<close>

theorem temp_password_counterexample:
  "verify_otp_handler (sample_verify_env [sample_row] 1000000) sample_verify_request
     = ((200, VerifySuccess True ''OTP verified successfully'' (Session 7)), [],
        [sample_account\<lparr>password := Some ''k3j9x0qap7m2w5ztAa1!''\<rparr>])
   \<and> tempPassword (sample_verify_env [sample_row] 1000000) = ''k3j9x0qap7m2w5ztAa1!''
   \<and> signInWithPassword [sample_account\<lparr>password := Some ''k3j9x0qap7m2w5ztAa1!''\<rparr>]
        sample_phone ''k3j9x0qap7m2w5ztAa1!'' = Inr (Session 7)"
  by (simp add: sample_handler_run)
    (simp add: sample_verify_env_def tempPassword_def signInWithPassword_def sample_account_def)

text \<open>
  C7. Expiry. For a phone with a live record and any submitted code, a \<open>verify_otp\<close>
  call after \<open>expires_at\<close> returns failure with "OTP has expired" and 0 remaining
  attempts and deletes the record; every later call for the phone finds no OTP.
\<close>

theorem verify_otp_expired:
  assumes "table_ok tbl" "r \<in> set tbl" "phone_number r = p" "verified r = False"
    and "expires_at r < now"
  shows "\<exists>tbl'. verify_otp tbl now p code =
            (\<lparr>success = False, message = ''OTP has expired'', remaining_attempts = 0\<rparr>, tbl')
          \<and> otp_id r \<notin> otp_id ` set tbl'
          \<and> (\<forall>now' code'. verify_otp tbl' now' p code' = (no_otp_found, tbl'))"
proof -
  have live: "live_record tbl p r" using assms(1-4) by (rule table_ok_live_record)
  have gone: "filter (\<lambda>x. phone_number x = p \<and> verified x = False) (delete_id tbl (otp_id r)) = []"
    using live by (rule live_after_delete)
  show ?thesis
    using assms(5) verify_otp_live[OF live] id_gone_after_delete[of r tbl] verify_otp_none[OF gone]
    by simp
qed

theorem verify_otp_expired_witness:
  "table_ok [sample_row] \<and> sample_row \<in> set [sample_row]
   \<and> phone_number sample_row = sample_phone \<and> verified sample_row = False
   \<and> expires_at sample_row < 300000001
   \<and> (\<exists>tbl'. verify_otp [sample_row] 300000001 sample_phone ''482913'' =
            (\<lparr>success = False, message = ''OTP has expired'', remaining_attempts = 0\<rparr>, tbl')
          \<and> otp_id sample_row \<notin> otp_id ` set tbl'
          \<and> (\<forall>now' code'. verify_otp tbl' now' sample_phone code' = (no_otp_found, tbl')))"
proof -
  have h1: "table_ok [sample_row]"
    by (simp add: table_ok_def primary_key_ok_def unique_active_otp_def)
  have h2: "sample_row \<in> set [sample_row]" by simp
  have h3: "phone_number sample_row = sample_phone" by (simp add: sample_row_def)
  have h4: "verified sample_row = False" by (simp add: sample_row_def)
  have h5: "expires_at sample_row < 300000001" by (simp add: sample_row_def)
  from verify_otp_expired[OF h1 h2 h3 h4 h5, of "''482913''"] h1 h2 h3 h4 h5
  show ?thesis by simp
qed

text \<open>
  C8. The rate limiter. With no row for the phone the result is allowed with wait 0.
  Otherwise \<open>elapsedSeconds\<close> is the whole number of seconds nearest to the time elapsed
  since the most recent \<open>created_at\<close> of the phone's rows (a count of microseconds), a
  half rounded away from zero, and no other number; with it and
  \<open>waitSeconds = windowSeconds - elapsedSeconds\<close> within the \<open>INTEGER\<close> range, the call
  denies with \<open>waitSeconds\<close> exactly when it is positive and allows with 0 otherwise.
\<close>

theorem check_otp_rate_limit_spec:
  "((\<forall>r \<in> set tbl. phone_number r \<noteq> p) \<longrightarrow> check_otp_rate_limit tbl now p w = Inr (True, 0))
   \<and> ((\<exists>r \<in> set tbl. phone_number r = p) \<longrightarrow>
        (\<exists>elapsedSeconds.
           (\<forall>e. (2 * \<bar>now - Max (created_at ` {r \<in> set tbl. phone_number r = p}) - 1000000 * e\<bar>
                    \<le> 1000000
                  \<and> (2 * \<bar>now - Max (created_at ` {r \<in> set tbl. phone_number r = p})
                           - 1000000 * e\<bar> = 1000000
                       \<longrightarrow> \<bar>now - Max (created_at ` {r \<in> set tbl. phone_number r = p})\<bar>
                             < \<bar>1000000 * e\<bar>))
                 = (e = elapsedSeconds))
           \<and> elapsedSeconds
               = epoch_seconds (now - Max (created_at ` {r \<in> set tbl. phone_number r = p}))
           \<and> (int4 elapsedSeconds \<longrightarrow> int4 (w - elapsedSeconds) \<longrightarrow>
                check_otp_rate_limit tbl now p w =
                  (if w - elapsedSeconds > 0 then Inr (False, w - elapsedSeconds)
                   else Inr (True, 0)))))"
proof (intro conjI impI)
  assume "\<forall>r \<in> set tbl. phone_number r \<noteq> p"
  then have "filter (\<lambda>r. phone_number r = p) tbl = []" by (simp add: filter_empty_conv)
  then show "check_otp_rate_limit tbl now p w = Inr (True, 0)"
    by (simp add: check_otp_rate_limit_def)
next
  assume "\<exists>r \<in> set tbl. phone_number r = p"
  then have ne: "filter (\<lambda>r. phone_number r = p) tbl \<noteq> []" by (simp add: filter_empty_conv)
  then obtain r where r: "latest (filter (\<lambda>r. phone_number r = p) tbl) = Some r"
    using latest_None_iff by (cases "latest (filter (\<lambda>r. phone_number r = p) tbl)") auto
  have "created_at r = Max (created_at ` set (filter (\<lambda>r. phone_number r = p) tbl))"
    using r by (rule latest_created_at)
  then have c: "created_at r = Max (created_at ` {r \<in> set tbl. phone_number r = p})" by simp
  let ?d = "now - Max (created_at ` {r \<in> set tbl. phone_number r = p})"
  let ?e = "epoch_seconds ?d"
  have near: "\<forall>e. (2 * \<bar>?d - 1000000 * e\<bar> \<le> 1000000
                  \<and> (2 * \<bar>?d - 1000000 * e\<bar> = 1000000 \<longrightarrow> \<bar>?d\<bar> < \<bar>1000000 * e\<bar>))
                 = (e = ?e)"
    using epoch_seconds_nearest[of ?d] nearest_second_unique[of ?d _ ?e] by blast
  have res: "int4 ?e \<longrightarrow> int4 (w - ?e) \<longrightarrow>
                check_otp_rate_limit tbl now p w =
                  (if w - ?e > 0 then Inr (False, w - ?e) else Inr (True, 0))"
    by (simp add: check_otp_rate_limit_def r c[symmetric] Let_def)
  from near res
  show "\<exists>elapsedSeconds.
           (\<forall>e. (2 * \<bar>?d - 1000000 * e\<bar> \<le> 1000000
                  \<and> (2 * \<bar>?d - 1000000 * e\<bar> = 1000000 \<longrightarrow> \<bar>?d\<bar> < \<bar>1000000 * e\<bar>))
                 = (e = elapsedSeconds))
           \<and> elapsedSeconds = ?e
           \<and> (int4 elapsedSeconds \<longrightarrow> int4 (w - elapsedSeconds) \<longrightarrow>
                check_otp_rate_limit tbl now p w =
                  (if w - elapsedSeconds > 0 then Inr (False, w - elapsedSeconds)
                   else Inr (True, 0)))"
    by blast
qed

theorem check_otp_rate_limit_spec_witness:
  "phone_number sample_row \<noteq> ''+919876543210''
   \<and> check_otp_rate_limit [sample_row] 4000000 ''+919876543210'' 15 = Inr (True, 0)
   \<and> phone_number sample_row = sample_phone
   \<and> Max (created_at ` {r \<in> set [sample_row]. phone_number r = sample_phone}) = 0
   \<and> int4 4 \<and> int4 (15 - 4)
   \<and> check_otp_rate_limit [sample_row] 4000000 sample_phone 15 = Inr (False, 11)
   \<and> check_otp_rate_limit [sample_row] 14499999 sample_phone 15 = Inr (False, 1)
   \<and> check_otp_rate_limit [sample_row] 14500000 sample_phone 15 = Inr (True, 0)"
proof -
  have h1: "\<forall>r \<in> set [sample_row]. phone_number r \<noteq> ''+919876543210''"
    by (simp add: sample_row_def sample_phone_def)
  have h2: "\<exists>r \<in> set [sample_row]. phone_number r = sample_phone"
    by (simp add: sample_row_def)
  have s: "{r \<in> set [sample_row]. phone_number r = sample_phone} = {sample_row}"
    by (auto simp: sample_row_def)
  have m: "Max (created_at ` {r \<in> set [sample_row]. phone_number r = sample_phone}) = 0"
    unfolding s by (simp add: sample_row_def)
  have i: "int4 4" "int4 (15 - 4)" "int4 14" "int4 (15 - 14)" "int4 15" "int4 (15 - 15)"
    by (simp_all add: int4_def)
  from check_otp_rate_limit_spec[of "[sample_row]" "''+919876543210''" 4000000 15] h1
  have a: "check_otp_rate_limit [sample_row] 4000000 ''+919876543210'' 15 = Inr (True, 0)"
    by blast
  have run: "check_otp_rate_limit [sample_row] now sample_phone 15
               = (if 15 - e > 0 then Inr (False, 15 - e) else Inr (True, 0))"
    if n: "2 * \<bar>now - 1000000 * e\<bar> \<le> 1000000"
      "2 * \<bar>now - 1000000 * e\<bar> = 1000000 \<longrightarrow> \<bar>now\<bar> < \<bar>1000000 * e\<bar>"
      and r: "int4 e" "int4 (15 - e)" for now e
  proof -
    from check_otp_rate_limit_spec[of "[sample_row]" sample_phone now 15] h2
    obtain el where el: "\<forall>e. (2 * \<bar>now - 0 - 1000000 * e\<bar> \<le> 1000000
                  \<and> (2 * \<bar>now - 0 - 1000000 * e\<bar> = 1000000 \<longrightarrow> \<bar>now - 0\<bar> < \<bar>1000000 * e\<bar>))
                 = (e = el)"
      and res: "int4 el \<longrightarrow> int4 (15 - el) \<longrightarrow>
                check_otp_rate_limit [sample_row] now sample_phone 15 =
                  (if 15 - el > 0 then Inr (False, 15 - el) else Inr (True, 0))"
      unfolding m by blast
    from el n have "e = el" by simp blast
    with res r show ?thesis by simp
  qed
  have b: "check_otp_rate_limit [sample_row] 4000000 sample_phone 15 = Inr (False, 11)"
    using run[of 4000000 4] i by simp
  have c: "check_otp_rate_limit [sample_row] 14499999 sample_phone 15 = Inr (False, 1)"
    using run[of 14499999 14] i by simp
  have d: "check_otp_rate_limit [sample_row] 14500000 sample_phone 15 = Inr (True, 0)"
    using run[of 14500000 15] i by simp
  from h1 h2 m i a b c d show ?thesis by (simp add: sample_row_def)
qed

text \<open>
  C9. Delivery failure does not roll back issuance. When the request is valid, the
  rate limiter allows and \<open>create_otp_entry\<close> has stored the record, a notifier
  failure changes nothing: the response is 200 with success and \<open>expiresIn = 300\<close>,
  the same response and table as for any other notifier outcome; the stored row is the
  only row of the phone, and verifying its code before expiry succeeds.
\<close>

theorem notifier_failure_keeps_issuance:
  assumes "send_method req = ''POST''" "send_phoneNumber req = Some ph" "isValidFormat ph"
    and "\<not> rate_limit_rpc_fails env"
    and "check_otp_rate_limit (send_db env) (now_rate_limit env) ph 15 = Inr (True, w)"
    and "\<not> create_rpc_fails env"
    and "create_otp_entry (send_db env) (now_create env) (gen_random_uuid env) ph
           (generate_otp (math_random env)) 5 (Some (requestIp req)) = Inr (i, db')"
    and "fst (sendWhatsAppOTP (evolution env) ph (generate_otp (math_random env)) 5) = False"
  shows "send_otp_handler env req = ((200, SendSuccess True ''OTP sent successfully'' 300), db')
       \<and> (\<forall>ev. send_otp_handler (env\<lparr>evolution := ev\<rparr>) req = send_otp_handler env req)
       \<and> filter (\<lambda>r. phone_number r = ph) db' =
           [\<lparr>otp_id = gen_random_uuid env, phone_number = ph,
             otp_code = generate_otp (math_random env), created_at = now_create env,
             expires_at = now_create env + 300000000,
             attempts = 0, verified = False, request_ip = Some (requestIp req)\<rparr>]
       \<and> (\<forall>now. now \<le> now_create env + 300000000 \<longrightarrow>
             success (fst (verify_otp db' now ph (generate_otp (math_random env)))))"
proof -
  note v = isValidFormat_plus[OF assms(3)]
  have h: "send_otp_handler env' req = ((200, SendSuccess True ''OTP sent successfully'' 300), db')"
    if "send_db env' = send_db env" "now_rate_limit env' = now_rate_limit env"
      "now_create env' = now_create env" "rate_limit_rpc_fails env' = rate_limit_rpc_fails env"
      "create_rpc_fails env' = create_rpc_fails env" "math_random env' = math_random env"
      "gen_random_uuid env' = gen_random_uuid env" for env'
    using assms(1-7) v that by (simp add: send_otp_handler_def Let_def)
  have a: "send_otp_handler env req = ((200, SendSuccess True ''OTP sent successfully'' 300), db')"
    by (rule h) simp_all
  have b: "\<forall>ev. send_otp_handler (env\<lparr>evolution := ev\<rparr>) req = send_otp_handler env req"
    unfolding a by (intro allI h) simp_all
  let ?row = "\<lparr>otp_id = gen_random_uuid env, phone_number = ph,
             otp_code = generate_otp (math_random env), created_at = now_create env,
             expires_at = now_create env + 5 * 60000000,
             attempts = 0, verified = False, request_ip = Some (requestIp req)\<rparr>"
  have live: "live_record db' ph ?row" using assms(7) by (rule create_otp_entry_live)
  have c: "filter (\<lambda>r. phone_number r = ph) db' = [?row]"
    unfolding create_otp_entry_Inr(2)[OF assms(7)] by (simp add: delete_phone_def)
  have d: "\<forall>now. now \<le> now_create env + 300000000 \<longrightarrow>
             success (fst (verify_otp db' now ph (generate_otp (math_random env))))"
    unfolding verify_otp_live[OF live] by simp
  from a b c d show ?thesis by simp
qed

theorem notifier_failure_keeps_issuance_witness:
  "send_method sample_send_request = ''POST''
   \<and> send_phoneNumber sample_send_request = Some sample_phone
   \<and> isValidFormat sample_phone
   \<and> \<not> rate_limit_rpc_fails sample_send_env
   \<and> check_otp_rate_limit (send_db sample_send_env) (now_rate_limit sample_send_env)
        sample_phone 15 = Inr (True, 0)
   \<and> \<not> create_rpc_fails sample_send_env
   \<and> create_otp_entry (send_db sample_send_env) (now_create sample_send_env)
        (gen_random_uuid sample_send_env) sample_phone
        (generate_otp (math_random sample_send_env)) 5 (Some (requestIp sample_send_request))
        = Inr (41, [\<lparr>otp_id = 41, phone_number = sample_phone, otp_code = ''550000'',
                    created_at = 0, expires_at = 300000000, attempts = 0, verified = False,
                    request_ip = Some ''unknown''\<rparr>])
   \<and> fst (sendWhatsAppOTP (evolution sample_send_env) sample_phone
            (generate_otp (math_random sample_send_env)) 5) = False
   \<and> send_otp_handler sample_send_env sample_send_request
       = ((200, SendSuccess True ''OTP sent successfully'' 300),
          [\<lparr>otp_id = 41, phone_number = sample_phone, otp_code = ''550000'',
            created_at = 0, expires_at = 300000000, attempts = 0, verified = False,
            request_ip = Some ''unknown''\<rparr>])"
proof -
  have h1: "send_method sample_send_request = ''POST''" by (simp add: sample_send_request_def)
  have h2: "send_phoneNumber sample_send_request = Some sample_phone"
    by (simp add: sample_send_request_def)
  have h3: "isValidFormat sample_phone"
    by (simp add: isValidFormat_def startsWith_def sample_phone_def is_digit_def)
  have h4: "\<not> rate_limit_rpc_fails sample_send_env" by (simp add: sample_send_env_def)
  have h5: "check_otp_rate_limit (send_db sample_send_env) (now_rate_limit sample_send_env)
        sample_phone 15 = Inr (True, 0)"
    by (simp add: sample_send_env_def check_otp_rate_limit_def)
  have h6: "\<not> create_rpc_fails sample_send_env" by (simp add: sample_send_env_def)
  have h7: "create_otp_entry (send_db sample_send_env) (now_create sample_send_env)
        (gen_random_uuid sample_send_env) sample_phone
        (generate_otp (math_random sample_send_env)) 5 (Some (requestIp sample_send_request))
        = Inr (41, [\<lparr>otp_id = 41, phone_number = sample_phone, otp_code = ''550000'',
                    created_at = 0, expires_at = 300000000, attempts = 0, verified = False,
                    request_ip = Some ''unknown''\<rparr>])"
    by (simp add: sample_send_env_def sample_send_request_def requestIp_def sample_code
        create_otp_entry_def delete_phone_def insert_row_def)
  have h8: "fst (sendWhatsAppOTP (evolution sample_send_env) sample_phone
            (generate_otp (math_random sample_send_env)) 5) = False"
    by (simp add: sample_send_env_def sendWhatsAppOTP_def)
  from notifier_failure_keeps_issuance[OF h1 h2 h3 h4 h5 h6 h7 h8] h1 h2 h3 h4 h5 h6 h7 h8 show ?thesis by blast
qed

text \<open>
  C10. When the only row of a phone is deleted by \<open>verify_otp\<close> (success, expiry or
  exhausted attempts), a following \<open>check_otp_rate_limit\<close> allows with wait 0, at any
  time and for any window: the deletion erases the rate limit's history.
\<close>

theorem consumed_otp_erases_rate_limit:
  assumes "filter (\<lambda>x. phone_number x = p) tbl = [r]" "verified r = False"
    and "verify_otp tbl now p code = (res, tbl')"
    and "success res \<or> message res = ''OTP has expired''
              \<or> message res = ''Maximum verification attempts exceeded''"
  shows "check_otp_rate_limit tbl' now' p w = Inr (True, 0)"
proof -
  have f: "filter (\<lambda>x. phone_number x = p \<and> verified x = False) tbl
         = filter (\<lambda>x. verified x = False) (filter (\<lambda>x. phone_number x = p) tbl)"
    by (simp add: conj_commute)
  have l: "latest (filter (\<lambda>x. phone_number x = p \<and> verified x = False) tbl) = Some r"
    unfolding f assms(1) using assms(2) by simp
  have t: "tbl' = delete_id tbl (otp_id r)"
    using assms(3,4) unfolding verify_otp_def l
    by (auto simp: Let_def delete_id_increment split: if_splits)
  have "filter (\<lambda>x. phone_number x = p) tbl'
        = filter (\<lambda>x. otp_id x \<noteq> otp_id r) (filter (\<lambda>x. phone_number x = p) tbl)"
    unfolding t by (simp add: delete_id_def conj_commute)
  then have "filter (\<lambda>x. phone_number x = p) tbl' = []" unfolding assms(1) by simp
  then show ?thesis by (simp add: check_otp_rate_limit_def)
qed

theorem consumed_otp_erases_rate_limit_witness:
  "filter (\<lambda>x. phone_number x = sample_phone) [sample_row] = [sample_row]
   \<and> verified sample_row = False
   \<and> verify_otp [sample_row] 1000000 sample_phone ''482913''
       = (\<lparr>success = True, message = ''OTP verified successfully'', remaining_attempts = 4\<rparr>, [])
   \<and> check_otp_rate_limit [] 1000001 sample_phone 15 = Inr (True, 0)"
proof -
  have h1: "filter (\<lambda>x. phone_number x = sample_phone) [sample_row] = [sample_row]"
    by (simp add: sample_row_def)
  have h2: "verified sample_row = False" by (simp add: sample_row_def)
  have h3: "verify_otp [sample_row] 1000000 sample_phone ''482913''
       = (\<lparr>success = True, message = ''OTP verified successfully'', remaining_attempts = 4\<rparr>, [])"
    by (simp add: verify_otp_def sample_row_def delete_id_def increment_attempts_def)
  have h4: "success \<lparr>success = True, message = ''OTP verified successfully'', remaining_attempts = 4\<rparr>
       \<or> message \<lparr>success = True, message = ''OTP verified successfully'', remaining_attempts = 4\<rparr> = ''OTP has expired''
       \<or> message \<lparr>success = True, message = ''OTP verified successfully'', remaining_attempts = 4\<rparr> = ''Maximum verification attempts exceeded''"
    by simp
  from consumed_otp_erases_rate_limit[OF h1 h2 h3 h4, of 1000001 15] h1 h2 h3
  show ?thesis by simp
qed

end
